theory Spec2Isabelle
  imports Complex_Main
begin

section \<open>Tensor handles and devices of \<open>pytorch_backend.py\<close>\<close>

text \<open>
  Python exceptions are values. \<open>AssertionError\<close> carries the message of the failed
  \<open>assert\<close> (empty when the source gives none).
\<close>

datatype error =
  AssertionError string
| IndexError
| AttributeError
| TypeError
| ValueError
| RuntimeError
| FileNotFoundError
| RecursionError
| ZeroDivisionError

datatype DeviceType = CPU | CUDA | DISK | MIXED | COMPRESSED

definition DeviceType_convert :: "string \<Rightarrow> error + DeviceType" where
  "DeviceType_convert nm =
     (if nm = ''cpu'' then Inr CPU
      else if nm = ''cuda'' then Inr CUDA
      else if nm = ''disk'' then Inr DISK
      else if nm = ''mixed'' then Inr MIXED
      else if nm = ''compressed'' then Inr COMPRESSED
      else Inl ValueError)"

text \<open>
  The device classes. A \<open>TorchDevice\<close> wraps \<open>torch.device(name)\<close>, whose type is
  \<open>cpu\<close> or \<open>cuda\<close>; a \<open>TorchDisk\<close> is known by its directory; a
  \<open>TorchMixedDevice\<close> holds its \<open>base_devices\<close>.
\<close>

datatype torch_dev = cpu | cuda nat

datatype device =
  TorchDevice torch_dev
| TorchDisk string
| TorchMixedDevice "device list"
| TorchCompressedDevice

fun device_type :: "device \<Rightarrow> DeviceType" where
  "device_type (TorchDevice cpu) = CPU"
| "device_type (TorchDevice (cuda _)) = CUDA"
| "device_type (TorchDisk _) = DISK"
| "device_type (TorchMixedDevice _) = MIXED"
| "device_type TorchCompressedDevice = COMPRESSED"

text \<open>
  \<open>TorchTensor.data\<close>: a native \<open>torch.Tensor\<close> (of which only \<open>is_pinned()\<close> is
  kept), a file name, \<open>(tensors, segment_points)\<close> on a mixed device, where an absent
  segment is Python's \<open>None\<close>, or the payload of the compression module. Handles are
  Python objects: a handle is an address into a store, so that two holders of one handle
  see each other's \<open>delete\<close>.
\<close>

datatype tensor_data =
  Native bool
| Filename string
| Segments "nat option list" "int list"
| CompressedData

record TorchTensor =
  shape :: "int list"
  data :: "tensor_data option"
  device :: "device option"
  delete_file :: bool
  name :: string

type_synonym store = "nat \<Rightarrow> TorchTensor option"

subsection \<open>Index ranges and \<open>cut_indices\<close>\<close>

text \<open>Python's \<open>slice(start, stop, step)\<close>; \<open>slice(a, b)\<close> has \<open>step = None\<close>.\<close>

datatype slice = Slice (start: int) (stop: int) (step: "int option")

definition SEG_DIM :: nat where
  "SEG_DIM = 1"

definition cut_indices :: "slice list \<Rightarrow> int \<Rightarrow> int \<Rightarrow> int \<Rightarrow> error + slice list" where
  "cut_indices indices lo hi base =
     (if \<not> list_all (\<lambda>x. step x = None) indices then Inl (AssertionError [])
      else if length indices \<le> SEG_DIM then Inl IndexError
      else
        let seg = indices ! SEG_DIM in
        Inr (take SEG_DIM indices
             @ [Slice (max (start seg) lo - base) (min (stop seg) hi - base) None]
             @ drop (SEG_DIM + 1) indices))"

subsection \<open>\<open>general_copy\<close>\<close>

text \<open>
  A copy request \<open>(dst, dst_indices, src, src_indices)\<close>; an absent range is \<open>None\<close>.
  \<open>general_copy\<close> starts copies and returns; what it starts is the list of actions it
  returns: a task put on a disk device's queue (\<open>submit_copy\<close>), a call of the
  compression module's \<open>general_copy_compressed\<close>, a non-blocking \<open>copy_\<close> after
  \<open>pin_memory()\<close> of the source, or a plain non-blocking \<open>copy_\<close>.
\<close>

datatype copy_task =
  CopyTask (task_dst: nat) (task_dst_indices: "slice list option")
           (task_src: nat) (task_src_indices: "slice list option")

datatype copy_action =
  SubmitCopy device copy_task
| CompressedCopy copy_task
| PinnedCopy copy_task
| DirectCopy copy_task

text \<open>\<open>indices or tuple(slice(0, x) for x in shape)\<close>: \<open>None\<close> and \<open>()\<close> are falsy.\<close>

fun indices_or_full :: "slice list option \<Rightarrow> int list \<Rightarrow> slice list" where
  "indices_or_full None shp = map (\<lambda>x. Slice 0 x None) shp"
| "indices_or_full (Some []) shp = map (\<lambda>x. Slice 0 x None) shp"
| "indices_or_full (Some (i # is)) shp = i # is"

text \<open>\<open>t.data.is_pinned()\<close>: only a native tensor has the method.\<close>

fun is_pinned :: "tensor_data option \<Rightarrow> error + bool" where
  "is_pinned (Some (Native p)) = Inr p"
| "is_pinned _ = Inl AttributeError"

text \<open>
  The last three branches of \<open>general_copy\<close>, reached when neither tensor is mixed,
  compressed or on disk. \<open>gdd\<close> is the module's \<open>global_disk_device\<close>, \<open>None\<close>
  until a \<open>TorchDisk\<close> is constructed. The conditions are evaluated left to right
  and short-circuit as Python's \<open>and\<close> does.
\<close>

definition memory_copy ::
  "device option \<Rightarrow> TorchTensor \<Rightarrow> TorchTensor \<Rightarrow> DeviceType \<Rightarrow> DeviceType \<Rightarrow> copy_task
     \<Rightarrow> error + copy_action list" where
  "memory_copy gdd d s ddt sdt task =
     (let relay_or_direct =
        (if sdt = CPU \<and> ddt = CUDA then
           (case is_pinned (data s) of
              Inl e \<Rightarrow> Inl e
            | Inr p \<Rightarrow> if \<not> p then Inr [PinnedCopy task] else Inr [DirectCopy task])
         else Inr [DirectCopy task])
      in
      if sdt = CUDA \<and> ddt = CPU then
        (case is_pinned (data d) of
           Inl e \<Rightarrow> Inl e
         | Inr p \<Rightarrow>
             if \<not> p then
               (case shape s of
                  [] \<Rightarrow> Inl IndexError
                | n # _ \<Rightarrow>
                    if n > 1 then
                      (case gdd of
                         None \<Rightarrow> Inl AttributeError
                       | Some disk \<Rightarrow> Inr [SubmitCopy disk task])
                    else relay_or_direct)
             else relay_or_direct)
      else relay_or_direct)"

text \<open>
  The body of the loop over \<open>range(len(base_devices))\<close> when \<open>dst\<close> is mixed, up to
  the recursive call: \<open>None\<close> is \<open>continue\<close> (an empty segment), otherwise the
  segment's handle with \<open>tmp_dst_indices\<close> and \<open>tmp_src_indices\<close>. The loop assigns
  \<open>src_indices\<close> and \<open>dst_indices\<close> their defaults in its first iteration that is not
  skipped; assigning them again changes nothing, so the body computes them each time.
\<close>

definition to_segment ::
  "TorchTensor \<Rightarrow> slice list option \<Rightarrow> TorchTensor \<Rightarrow> slice list option \<Rightarrow> nat
     \<Rightarrow> error + (nat option \<times> slice list \<times> slice list) option" where
  "to_segment d dst_indices s src_indices i =
     (case data d of
        Some (Segments tensors seg_points) \<Rightarrow>
          if \<not> i + 1 < length seg_points then Inl IndexError
          else if seg_points ! i = seg_points ! (i + 1) then Inr None
          else
            (case cut_indices (indices_or_full src_indices (shape s))
                    (seg_points ! i) (seg_points ! (i + 1)) 0 of
               Inl e \<Rightarrow> Inl e
             | Inr tmp_src_indices \<Rightarrow>
            (case cut_indices (indices_or_full dst_indices (shape d))
                    (seg_points ! i) (seg_points ! (i + 1)) (seg_points ! i) of
               Inl e \<Rightarrow> Inl e
             | Inr tmp_dst_indices \<Rightarrow>
                 if \<not> i < length tensors then Inl IndexError
                 else Inr (Some (tensors ! i, tmp_dst_indices, tmp_src_indices))))
      | _ \<Rightarrow> Inl TypeError)"

text \<open>The same when \<open>src\<close> is mixed: now the source range is re-based.\<close>

definition from_segment ::
  "TorchTensor \<Rightarrow> slice list option \<Rightarrow> TorchTensor \<Rightarrow> slice list option \<Rightarrow> nat
     \<Rightarrow> error + (nat option \<times> slice list \<times> slice list) option" where
  "from_segment d dst_indices s src_indices i =
     (case data s of
        Some (Segments tensors seg_points) \<Rightarrow>
          if \<not> i + 1 < length seg_points then Inl IndexError
          else if seg_points ! i = seg_points ! (i + 1) then Inr None
          else
            (case cut_indices (indices_or_full src_indices (shape s))
                    (seg_points ! i) (seg_points ! (i + 1)) (seg_points ! i) of
               Inl e \<Rightarrow> Inl e
             | Inr tmp_src_indices \<Rightarrow>
            (case cut_indices (indices_or_full dst_indices (shape d))
                    (seg_points ! i) (seg_points ! (i + 1)) 0 of
               Inl e \<Rightarrow> Inl e
             | Inr tmp_dst_indices \<Rightarrow>
                 if \<not> i < length tensors then Inl IndexError
                 else Inr (Some (tensors ! i, tmp_dst_indices, tmp_src_indices))))
      | _ \<Rightarrow> Inl TypeError)"

text \<open>
  The loop itself: \<open>body\<close> is one of the two bodies above, \<open>call\<close> the recursive
  \<open>general_copy\<close> on the segment. An exception ends the loop. A segment whose handle
  is \<open>None\<close> has no \<open>device\<close>: \<open>AttributeError\<close>.
\<close>

fun copy_segments ::
  "(nat \<Rightarrow> error + (nat option \<times> slice list \<times> slice list) option)
     \<Rightarrow> (nat \<Rightarrow> slice list \<Rightarrow> slice list \<Rightarrow> error + copy_action list)
     \<Rightarrow> nat list \<Rightarrow> error + copy_action list" where
  "copy_segments body call [] = Inr []"
| "copy_segments body call (i # rest) =
     (case body i of
        Inl e \<Rightarrow> Inl e
      | Inr None \<Rightarrow> copy_segments body call rest
      | Inr (Some (None, tmp_dst_indices, tmp_src_indices)) \<Rightarrow> Inl AttributeError
      | Inr (Some (Some sub, tmp_dst_indices, tmp_src_indices)) \<Rightarrow>
          (case call sub tmp_dst_indices tmp_src_indices of
             Inl e \<Rightarrow> Inl e
           | Inr acts \<Rightarrow>
               (case copy_segments body call rest of
                  Inl e \<Rightarrow> Inl e
                | Inr acts' \<Rightarrow> Inr (acts @ acts'))))"

text \<open>
  \<open>t.device.device_type\<close> of a handle: a handle that was deleted has
  \<open>device = None\<close>, which has no \<open>device_type\<close>.
\<close>

definition handle_device :: "store \<Rightarrow> nat \<Rightarrow> error + TorchTensor \<times> device" where
  "handle_device h r =
     (case h r of
        None \<Rightarrow> Inl AttributeError
      | Some t \<Rightarrow> (case device t of None \<Rightarrow> Inl AttributeError | Some dv \<Rightarrow> Inr (t, dv)))"

fun base_devices :: "device \<Rightarrow> device list" where
  "base_devices (TorchMixedDevice ds) = ds"
| "base_devices _ = []"

text \<open>
  \<open>general_copy\<close> recurses through the segments of a mixed tensor. The first argument
  bounds the nesting of \<open>general_copy\<close> frames, as the interpreter's recursion limit
  does (a store can hold a mixed tensor that has itself as a segment); running out is
  \<open>RecursionError\<close>. Actions started before an exception are not reported.
\<close>

primrec general_copy ::
  "nat \<Rightarrow> store \<Rightarrow> device option \<Rightarrow> nat \<Rightarrow> slice list option \<Rightarrow> nat \<Rightarrow> slice list option
     \<Rightarrow> error + copy_action list" where
  "general_copy 0 h gdd dst dst_indices src src_indices = Inl RecursionError"
| "general_copy (Suc depth) h gdd dst dst_indices src src_indices =
     (case handle_device h dst of
        Inl e \<Rightarrow> Inl e
      | Inr (d, ddev) \<Rightarrow>
          if device_type ddev = MIXED then
            (case handle_device h src of
               Inl e \<Rightarrow> Inl e
             | Inr (s, sdev) \<Rightarrow>
                 if device_type sdev = MIXED then Inl (AssertionError [])
                 else
                   copy_segments (to_segment d dst_indices s src_indices)
                     (\<lambda>sub tmp_dst_indices tmp_src_indices.
                        general_copy depth h gdd sub (Some tmp_dst_indices)
                          src (Some tmp_src_indices))
                     [0 ..< length (base_devices ddev)])
          else
            (case handle_device h src of
               Inl e \<Rightarrow> Inl e
             | Inr (s, sdev) \<Rightarrow>
                 if device_type sdev = MIXED then
                   copy_segments (from_segment d dst_indices s src_indices)
                     (\<lambda>sub tmp_dst_indices tmp_src_indices.
                        general_copy depth h gdd dst (Some tmp_dst_indices)
                          sub (Some tmp_src_indices))
                     [0 ..< length (base_devices sdev)]
                 else if device_type sdev = COMPRESSED \<or> device_type ddev = COMPRESSED then
                   Inr [CompressedCopy (CopyTask dst dst_indices src src_indices)]
                 else if device_type sdev = DISK then
                   Inr [SubmitCopy sdev (CopyTask dst dst_indices src src_indices)]
                 else if device_type ddev = DISK then
                   Inr [SubmitCopy ddev (CopyTask dst dst_indices src src_indices)]
                 else
                   memory_copy gdd d s (device_type ddev) (device_type sdev)
                     (CopyTask dst dst_indices src src_indices)))"

text \<open>
  The shape \<open>TorchTensor.copy\<close> gives the tensor it allocates for a copy of
  \<open>self[src_indices]\<close>: the extent of each given range, then the remaining axes of
  \<open>self.shape\<close>. This is the region a copy with these source ranges transfers.
\<close>

definition copy_shape :: "TorchTensor \<Rightarrow> slice list option \<Rightarrow> error + int list" where
  "copy_shape t src_indices =
     (case src_indices of
        None \<Rightarrow> Inr (shape t)
      | Some [] \<Rightarrow> Inr (shape t)
      | Some idx \<Rightarrow>
          if \<not> list_all (\<lambda>x. step x = None) idx then Inl (AssertionError [])
          else Inr (map (\<lambda>x. stop x - start x) idx @ drop (length idx) (shape t)))"

section \<open>Allocation and deletion\<close>

text \<open>
  The state the backends share: the store of handles (\<open>next_ref\<close> is the next fresh
  address), the class counter \<open>TorchTensor.name_count\<close>, and the files on disk.
  Element types and tensor contents are left out; running out of memory is not modelled.
\<close>

record world =
  objects :: store
  next_ref :: nat
  name_count :: nat
  files :: "string set"

fun str_nat :: "nat \<Rightarrow> string" where
  "str_nat n =
     (if n < 10 then [char_of (48 + n)]
      else str_nat (n div 10) @ [char_of (48 + n mod 10)])"

declare str_nat.simps [simp del]

text \<open>\<open>name or TorchTensor.next_name()\<close>: \<open>None\<close> and the empty string are falsy.\<close>

definition name_or_next :: "string option \<Rightarrow> world \<Rightarrow> string \<times> world" where
  "name_or_next nm w =
     (case nm of
        Some (c # cs) \<Rightarrow> (c # cs, w)
      | _ \<Rightarrow> (''t_'' @ str_nat (name_count w), w\<lparr>name_count := name_count w + 1\<rparr>))"

definition new_tensor :: "world \<Rightarrow> TorchTensor \<Rightarrow> nat \<times> world" where
  "new_tensor w t =
     (next_ref w, w\<lparr>objects := (objects w)(next_ref w \<mapsto> t), next_ref := next_ref w + 1\<rparr>)"

text \<open>
  \<open>TorchDevice.allocate\<close>: \<open>torch.empty\<close> refuses a negative extent. Host memory is
  pinned unless the caller says otherwise; other devices never pin.
\<close>

definition TorchDevice_allocate ::
  "world \<Rightarrow> torch_dev \<Rightarrow> int list \<Rightarrow> bool option \<Rightarrow> string option \<Rightarrow> error + nat \<times> world" where
  "TorchDevice_allocate w dev shp pin_memory nm =
     (let pin = (if device_type (TorchDevice dev) = CPU
                 then (case pin_memory of None \<Rightarrow> True | Some p \<Rightarrow> p)
                 else False)
      in
      if \<not> list_all (\<lambda>x. 0 \<le> x) shp then Inl RuntimeError
      else
        let (nm', w') = name_or_next nm w in
        Inr (new_tensor w'
               \<lparr>shape = shp, data = Some (Native pin), device = Some (TorchDevice dev),
                delete_file = True, name = nm'\<rparr>))"

text \<open>\<open>os.path.join\<close> of a directory and one component.\<close>

definition path_join :: "string \<Rightarrow> string \<Rightarrow> string" where
  "path_join a b =
     (if b \<noteq> [] \<and> hd b = CHR ''/'' then b
      else if a = [] \<or> last a = CHR ''/'' then a @ b
      else a @ ''/'' @ b)"

text \<open>\<open>TorchDisk.allocate\<close>: the tensor is a new file under the disk's directory.\<close>

definition TorchDisk_allocate ::
  "world \<Rightarrow> string \<Rightarrow> int list \<Rightarrow> string option \<Rightarrow> error + nat \<times> world" where
  "TorchDisk_allocate w dir shp nm =
     (let (nm', w') = name_or_next nm w;
          path = path_join dir nm'
      in
      if \<not> list_all (\<lambda>x. 0 \<le> x) shp then Inl ValueError
      else
        Inr (new_tensor (w'\<lparr>files := insert path (files w')\<rparr>)
               \<lparr>shape = shp, data = Some (Filename path), device = Some (TorchDisk dir),
                delete_file = True, name = nm'\<rparr>))"

text \<open>
  \<open>devices[i].allocate(seg_shape, dtype, pin_memory=pin_memory)\<close> as
  \<open>TorchMixedDevice.allocate\<close> calls it. A mixed or compressed base device has a
  further required parameter (\<open>seg_lengths\<close>, the compression configuration), so that
  call is a \<open>TypeError\<close>.
\<close>

fun base_allocate ::
  "world \<Rightarrow> device \<Rightarrow> int list \<Rightarrow> bool option \<Rightarrow> error + nat \<times> world" where
  "base_allocate w (TorchDevice dev) shp pin_memory = TorchDevice_allocate w dev shp pin_memory None"
| "base_allocate w (TorchDisk dir) shp pin_memory = TorchDisk_allocate w dir shp None"
| "base_allocate w (TorchMixedDevice ds) shp pin_memory = Inl TypeError"
| "base_allocate w TorchCompressedDevice shp pin_memory = Inl TypeError"

text \<open>\<open>seg_points = [0]; for l in seg_lengths: seg_points.append(seg_points[-1] + l)\<close>\<close>

fun seg_points_from :: "int \<Rightarrow> int list \<Rightarrow> int list" where
  "seg_points_from acc [] = [acc]"
| "seg_points_from acc (l # ls) = acc # seg_points_from (acc + l) ls"

text \<open>\<open>seg_shape = shape[:SEG_DIM] + (seg_len,) + shape[SEG_DIM+1:]\<close>\<close>

definition seg_shape :: "int list \<Rightarrow> int \<Rightarrow> int list" where
  "seg_shape shp seg_len = take SEG_DIM shp @ [seg_len] @ drop (SEG_DIM + 1) shp"

text \<open>
  The loop over the base devices; \<open>i\<close> is the loop variable. \<open>seg_points\<close> has one
  entry more than there are devices (the second \<open>assert\<close>), so both reads are in range.
\<close>

fun allocate_segments ::
  "world \<Rightarrow> device list \<Rightarrow> int list \<Rightarrow> int list \<Rightarrow> bool option \<Rightarrow> nat
     \<Rightarrow> error + nat option list \<times> world" where
  "allocate_segments w [] seg_points shp pin_memory i = Inr ([], w)"
| "allocate_segments w (dv # rest) seg_points shp pin_memory i =
     (let seg_len = seg_points ! (i + 1) - seg_points ! i in
      if seg_len = 0 then
        (case allocate_segments w rest seg_points shp pin_memory (i + 1) of
           Inl e \<Rightarrow> Inl e
         | Inr (ts, w') \<Rightarrow> Inr (None # ts, w'))
      else
        (case base_allocate w dv (seg_shape shp seg_len) pin_memory of
           Inl e \<Rightarrow> Inl e
         | Inr (r, w') \<Rightarrow>
             (case allocate_segments w' rest seg_points shp pin_memory (i + 1) of
                Inl e \<Rightarrow> Inl e
              | Inr (ts, w'') \<Rightarrow> Inr (Some r # ts, w''))))"

definition TorchMixedDevice_allocate ::
  "world \<Rightarrow> device list \<Rightarrow> int list \<Rightarrow> int list \<Rightarrow> bool option \<Rightarrow> string option
     \<Rightarrow> error + nat \<times> world" where
  "TorchMixedDevice_allocate w devices shp seg_lengths pin_memory nm =
     (if \<not> SEG_DIM < length shp then Inl IndexError
      else if sum_list seg_lengths \<noteq> shp ! SEG_DIM then Inl (AssertionError [])
      else if length seg_lengths \<noteq> length devices then Inl (AssertionError [])
      else
        let seg_points = seg_points_from 0 seg_lengths in
        (case allocate_segments w devices seg_points shp pin_memory 0 of
           Inl e \<Rightarrow> Inl e
         | Inr (ts, w') \<Rightarrow>
             let (nm', w'') = name_or_next nm w' in
             Inr (new_tensor w''
                    \<lparr>shape = shp, data = Some (Segments ts seg_points),
                     device = Some (TorchMixedDevice devices),
                     delete_file = True, name = nm'\<rparr>)))"

text \<open>
  \<open>int(x)\<close> of a Python float truncates toward zero. Floats are modelled as rationals.
\<close>

definition py_int :: "rat \<Rightarrow> int" where
  "py_int x = (if 0 \<le> x then \<lfloor>x\<rfloor> else \<lceil>x\<rceil>)"

text \<open>
  \<open>TorchMixedDevice.init_cache_one_gpu_batch\<close>: the cache shape and the three segment
  lengths from the policy's percentages, rounded down to a multiple of \<open>num_head\<close>, then
  the key and the value cache. The quotient by 100 is taken exactly (the float quotient
  of integers of this size truncates to the same integer). \<open>//\<close> by zero raises.
\<close>

record cache_config =
  n_head :: int
  input_dim :: int
  prompt_len :: int
  gen_len :: int
  gpu_batch_size :: int
  cache_gpu_percent :: int
  cache_cpu_percent :: int
  cache_disk_percent :: int

definition cache_shape :: "cache_config \<Rightarrow> int list" where
  "cache_shape c =
     [prompt_len c + gen_len c - 1, gpu_batch_size c * n_head c, input_dim c div n_head c]"

definition cache_seg_lengths :: "cache_config \<Rightarrow> int list" where
  "cache_seg_lengths c =
     (let extent = cache_shape c ! SEG_DIM;
          len_gpu = py_int (of_int (extent * cache_gpu_percent c) / 100) div n_head c * n_head c
      in
      if cache_disk_percent c = 0 then [len_gpu, extent - len_gpu, 0]
      else
        let len_cpu = py_int (of_int (extent * cache_cpu_percent c) / 100) div n_head c * n_head c
        in [len_gpu, len_cpu, extent - len_gpu - len_cpu])"

definition init_cache_one_gpu_batch ::
  "world \<Rightarrow> device list \<Rightarrow> cache_config \<Rightarrow> error + (nat \<times> nat) \<times> world" where
  "init_cache_one_gpu_batch w devices c =
     (if n_head c = 0 then Inl ZeroDivisionError
      else
        (case TorchMixedDevice_allocate w devices (cache_shape c) (cache_seg_lengths c)
                (Some False) None of
           Inl e \<Rightarrow> Inl e
         | Inr (k_cache, w') \<Rightarrow>
             (case TorchMixedDevice_allocate w' devices (cache_shape c) (cache_seg_lengths c)
                     (Some False) None of
                Inl e \<Rightarrow> Inl e
              | Inr (v_cache, w'') \<Rightarrow> Inr ((k_cache, v_cache), w''))))"

subsection \<open>\<open>delete\<close>\<close>

text \<open>
  \<open>TorchDisk.delete\<close> removes the file when it exists and the handle's \<open>delete_file\<close>
  is set; \<open>TorchDevice.delete\<close> is \<open>pass\<close>; \<open>TorchMixedDevice.delete\<close> reads
  \<open>self.tensor\<close>, an attribute no \<open>TorchMixedDevice\<close> has.
\<close>

definition TorchDisk_delete :: "world \<Rightarrow> TorchTensor \<Rightarrow> error + world" where
  "TorchDisk_delete w t =
     (case data t of
        Some (Filename path) \<Rightarrow>
          if path \<in> files w \<and> delete_file t then Inr (w\<lparr>files := files w - {path}\<rparr>)
          else Inr w
      | _ \<Rightarrow> Inl TypeError)"

definition TorchDevice_delete :: "world \<Rightarrow> TorchTensor \<Rightarrow> error + world" where
  "TorchDevice_delete w t = Inr w"

definition TorchMixedDevice_delete :: "world \<Rightarrow> TorchTensor \<Rightarrow> error + world" where
  "TorchMixedDevice_delete w t = Inl AttributeError"

text \<open>
  \<open>TorchTensor.delete\<close>: the \<open>assert\<close>, the call of the device's \<open>delete\<close> for a disk
  tensor only, then \<open>self.device = self.data = None\<close>. The handle is the object at
  address \<open>r\<close>; every other object of the store is left as it is.
\<close>

definition TorchTensor_delete :: "world \<Rightarrow> nat \<Rightarrow> error + world" where
  "TorchTensor_delete w r =
     (case objects w r of
        None \<Rightarrow> Inl AttributeError
      | Some t \<Rightarrow>
          (case device t of
             None \<Rightarrow> Inl (AssertionError ''already deleted'')
           | Some dv \<Rightarrow>
               (case (if device_type dv = DISK then TorchDisk_delete w t else Inr w) of
                  Inl e \<Rightarrow> Inl e
                | Inr w' \<Rightarrow>
                    Inr (w'\<lparr>objects := (objects w')(r \<mapsto> t\<lparr>device := None, data := None\<rparr>)\<rparr>))))"

section \<open>The disk backend's copy queue and its worker threads\<close>

text \<open>
  \<open>queue.Queue\<close>: the items (\<open>None\<close> is the shutdown sentinel) and the count of
  unfinished tasks. \<open>put_nowait\<close> appends and counts up, \<open>get\<close> takes the first item
  and blocks on an empty queue, \<open>task_done\<close> counts down and raises \<open>ValueError\<close>
  when called more often than items were put, \<open>join\<close> blocks until the count is zero.
\<close>

datatype thread_state = Running | Returned | Died error

record disk_state =
  copy_queue :: "copy_task option list"
  unfinished_tasks :: nat
  copy_threads :: "thread_state list"
  completed :: "(copy_task \<times> bool) list"
  cuda_pending :: "copy_task list"

text \<open>
  \<open>completed\<close> lists the tasks whose copy a worker has carried out, each with whether
  it went through the pinned relay buffer; \<open>cuda_pending\<close> lists the non-blocking
  device copies \<open>general_copy\<close> has started on the calling thread and nothing has waited
  for yet. A thread is \<open>Running\<close> (in its loop, blocked in \<open>get\<close> when the queue is
  empty), has \<open>Returned\<close>, or has \<open>Died\<close> of an exception that left its function.
\<close>

definition submit_copy :: "disk_state \<Rightarrow> copy_task \<Rightarrow> disk_state" where
  "submit_copy st task =
     st\<lparr>copy_queue := copy_queue st @ [Some task],
        unfinished_tasks := unfinished_tasks st + 1\<rparr>"

definition task_done :: "nat \<Rightarrow> error + nat" where
  "task_done u = (if u = 0 then Inl ValueError else Inr (u - 1))"

text \<open>
  What \<open>general_copy\<close> started, applied to the disk backend's state. The compression
  module's copy is outside this file and leaves the state as it is.
\<close>

fun start_action :: "disk_state \<Rightarrow> copy_action \<Rightarrow> disk_state" where
  "start_action st (SubmitCopy disk task) = submit_copy st task"
| "start_action st (CompressedCopy task) = st"
| "start_action st (PinnedCopy task) = st\<lparr>cuda_pending := cuda_pending st @ [task]\<rparr>"
| "start_action st (DirectCopy task) = st\<lparr>cuda_pending := cuda_pending st @ [task]\<rparr>"

text \<open>
  \<open>map_to_torch_tensor\<close>: \<open>tensor.device.device_type\<close> fails on a deleted handle, and
  \<open>open_memmap\<close> on a file that is not there.
\<close>

definition map_to_torch_tensor :: "world \<Rightarrow> nat \<Rightarrow> error + TorchTensor \<times> device" where
  "map_to_torch_tensor w r =
     (case objects w r of
        None \<Rightarrow> Inl AttributeError
      | Some t \<Rightarrow>
          (case device t of
             None \<Rightarrow> Inl AttributeError
           | Some dv \<Rightarrow>
               if device_type dv = DISK then
                 (case data t of
                    Some (Filename path) \<Rightarrow>
                      if path \<in> files w then Inr (t, dv) else Inl FileNotFoundError
                  | _ \<Rightarrow> Inl TypeError)
               else Inr (t, dv)))"

text \<open>
  One task of the worker, from \<open>dst, dst_indices, src, src_indices = item\<close> to the last
  \<open>copy_\<close>. \<open>torch_copy\<close> stands for the numeric backend: indexing the views and
  \<open>copy_\<close> itself, which raise on their own grounds (a shape mismatch, a bad index);
  it is a parameter. The result is the exception raised, or whether the copy went
  through the pinned buffer.
\<close>

definition run_copy_task ::
  "(copy_task \<Rightarrow> error option) \<Rightarrow> world \<Rightarrow> copy_task \<Rightarrow> error + bool" where
  "run_copy_task torch_copy w task =
     (case map_to_torch_tensor w (task_src task) of
        Inl e \<Rightarrow> Inl e
      | Inr (s, sdev) \<Rightarrow>
          (case map_to_torch_tensor w (task_dst task) of
             Inl e \<Rightarrow> Inl e
           | Inr (d, ddev) \<Rightarrow>
               (case torch_copy task of
                  Some e \<Rightarrow> Inl e
                | None \<Rightarrow> Inr (device_type sdev = CUDA \<or> device_type ddev = CUDA))))"

text \<open>
  \<open>copy_worker_func\<close>: the \<open>while True\<close> loop of one thread, run on the queue as it
  stands until the thread returns, dies, or blocks in \<open>get\<close> on the empty queue. There
  is no \<open>try\<close> in the loop: an exception of a task leaves the function, and the
  \<open>task_done\<close> after the copy is not reached.
\<close>

fun copy_worker_func ::
  "(copy_task \<Rightarrow> error option) \<Rightarrow> world \<Rightarrow> copy_task option list \<Rightarrow> nat
     \<Rightarrow> (copy_task \<times> bool) list
     \<Rightarrow> thread_state \<times> copy_task option list \<times> nat \<times> (copy_task \<times> bool) list" where
  "copy_worker_func torch_copy w [] u lg = (Running, [], u, lg)"
| "copy_worker_func torch_copy w (None # q) u lg =
     (case task_done u of
        Inl e \<Rightarrow> (Died e, q, u, lg)
      | Inr u' \<Rightarrow> (Returned, q, u', lg))"
| "copy_worker_func torch_copy w (Some task # q) u lg =
     (case run_copy_task torch_copy w task of
        Inl e \<Rightarrow> (Died e, q, u, lg)
      | Inr relay \<Rightarrow>
          (case task_done u of
             Inl e \<Rightarrow> (Died e, q, u, lg @ [(task, relay)])
           | Inr u' \<Rightarrow> copy_worker_func torch_copy w q u' (lg @ [(task, relay)])))"

text \<open>
  The threads take their turns one after the other, each running until it stops; a
  thread that has returned or died does nothing. After one round either the queue is
  empty or no thread is running, so nothing more can happen until a task is submitted.
\<close>

fun run_threads ::
  "(copy_task \<Rightarrow> error option) \<Rightarrow> world \<Rightarrow> thread_state list \<Rightarrow> copy_task option list \<Rightarrow> nat
     \<Rightarrow> (copy_task \<times> bool) list
     \<Rightarrow> thread_state list \<times> copy_task option list \<times> nat \<times> (copy_task \<times> bool) list" where
  "run_threads torch_copy w [] q u lg = ([], q, u, lg)"
| "run_threads torch_copy w (Running # ths) q u lg =
     (case copy_worker_func torch_copy w q u lg of
        (th', q', u', lg') \<Rightarrow>
          (case run_threads torch_copy w ths q' u' lg' of
             (ths', q'', u'', lg'') \<Rightarrow> (th' # ths', q'', u'', lg'')))"
| "run_threads torch_copy w (th # ths) q u lg =
     (case run_threads torch_copy w ths q u lg of
        (ths', q', u', lg') \<Rightarrow> (th # ths', q', u', lg'))"

definition run_workers ::
  "(copy_task \<Rightarrow> error option) \<Rightarrow> world \<Rightarrow> disk_state \<Rightarrow> disk_state" where
  "run_workers torch_copy w st =
     (case run_threads torch_copy w (copy_threads st) (copy_queue st) (unfinished_tasks st)
             (completed st) of
        (ths, q, u, lg) \<Rightarrow>
          st\<lparr>copy_threads := ths, copy_queue := q, unfinished_tasks := u, completed := lg\<rparr>)"

text \<open>
  \<open>TorchDisk.synchronize\<close> is \<open>self.copy_queue.join()\<close> and nothing else: the caller
  waits while the workers run, and returns when the count of unfinished tasks is zero.
  When the workers have stopped with the count above zero, it never returns: \<open>None\<close>.
  It has no exception to raise. \<open>TorchDevice.synchronize\<close> is
  \<open>torch.cuda.synchronize()\<close> and nothing else: it waits for the device copies.
\<close>

definition TorchDisk_synchronize ::
  "(copy_task \<Rightarrow> error option) \<Rightarrow> world \<Rightarrow> disk_state \<Rightarrow> disk_state option" where
  "TorchDisk_synchronize torch_copy w st =
     (let st' = run_workers torch_copy w st in
      if unfinished_tasks st' = 0 then Some st' else None)"

definition TorchDevice_synchronize :: "disk_state \<Rightarrow> disk_state" where
  "TorchDevice_synchronize st = st\<lparr>cuda_pending := []\<rparr>"

text \<open>The constructor's part: an empty queue and \<open>num_copy_threads\<close> started threads.\<close>

definition TorchDisk_init :: "nat \<Rightarrow> disk_state" where
  "TorchDisk_init num_copy_threads =
     \<lparr>copy_queue = [], unfinished_tasks = 0,
      copy_threads = replicate num_copy_threads Running,
      completed = [], cuda_pending = []\<rparr>"

section \<open>Compute stages of \<open>TorchDevice\<close>\<close>

subsection \<open>Sparse decode attention\<close>









subsection \<open>Input embedding\<close>

text \<open>
  \<open>F.embedding(ids, weight, padding_idx)\<close> on one row of ids: the rows of \<open>weight\<close> at
  the ids. \<open>padding_idx\<close> only stops the gradient of that row; the forward result is
  the row as it stands in \<open>weight\<close>. An id outside the table raises.
\<close>

fun F_embedding :: "int list \<Rightarrow> rat list list \<Rightarrow> int option \<Rightarrow> error + rat list list" where
  "F_embedding [] weight padding_idx = Inr []"
| "F_embedding (i # ids) weight padding_idx =
     (if i < 0 \<or> int (length weight) \<le> i then Inl IndexError
      else
        (case F_embedding ids weight padding_idx of
           Inl e \<Rightarrow> Inl e
         | Inr rows \<Rightarrow> Inr (weight ! nat i # rows)))"

fun cumsum_from :: "int \<Rightarrow> int list \<Rightarrow> int list" where
  "cumsum_from acc [] = []"
| "cumsum_from acc (x # xs) = (acc + x) # cumsum_from (acc + x) xs"

definition cumsum :: "int list \<Rightarrow> int list" where
  "cumsum xs = cumsum_from 0 xs"

text \<open>Python's \<open>xs[k:]\<close>: a negative \<open>k\<close> counts from the end.\<close>

definition py_from :: "int \<Rightarrow> 'a list \<Rightarrow> 'a list" where
  "py_from k xs = (if 0 \<le> k then drop (nat k) xs else drop (length xs - nat (- k)) xs)"

text \<open>Elementwise \<open>+\<close> of two tensors of one shape; broadcasting is not modelled.\<close>

definition add_vec :: "rat list \<Rightarrow> rat list \<Rightarrow> error + rat list" where
  "add_vec a b = (if length a \<noteq> length b then Inl RuntimeError else Inr (map2 (+) a b))"

fun add_rows :: "rat list list \<Rightarrow> rat list list \<Rightarrow> error + rat list list" where
  "add_rows [] [] = Inr []"
| "add_rows (a # as) (b # bs) =
     (case add_vec a b of
        Inl e \<Rightarrow> Inl e
      | Inr c \<Rightarrow> (case add_rows as bs of Inl e \<Rightarrow> Inl e | Inr cs \<Rightarrow> Inr (c # cs)))"
| "add_rows _ _ = Inl RuntimeError"

text \<open>
  \<open>opt_input_embed\<close> on one sequence of the batch (the rows of a batch do not
  interact): \<open>token_ids\<close> are the new tokens, \<open>attention_mask\<close> the 0/1 mask over the
  cached and the new positions, \<open>w_token\<close> and \<open>w_pos\<close> the two tables.
\<close>

definition positions_of :: "int list \<Rightarrow> int list" where
  "positions_of attention_mask =
     map2 (\<lambda>c m. c * m + 1) (cumsum attention_mask) attention_mask"

definition opt_input_embed ::
  "int list \<Rightarrow> int list \<Rightarrow> rat list list \<Rightarrow> rat list list \<Rightarrow> int \<Rightarrow> error + rat list list" where
  "opt_input_embed token_ids attention_mask w_token w_pos pad_token_id =
     (case F_embedding token_ids w_token (Some pad_token_id) of
        Inl e \<Rightarrow> Inl e
      | Inr token_embed \<Rightarrow>
          let positions = positions_of attention_mask;
              past_key_values_length = int (length attention_mask) - int (length token_ids);
              positions' = py_from past_key_values_length positions
          in
          (case F_embedding positions' w_pos None of
             Inl e \<Rightarrow> Inl e
           | Inr pos_embed \<Rightarrow> add_rows token_embed pos_embed))"

subsection \<open>Output stage\<close>

text \<open>
  \<open>opt_output_embed\<close> from \<open>logits\<close> (one sequence of the batch: a row of vocabulary
  logits per position; layer norm and the projection are the numeric backend's) to the
  rule that picks the next token: \<open>torch.multinomial\<close> over the softmax of the last
  position's logits divided by the temperature (the draw is random, so the result names
  the scaled logits it draws from), or \<open>argmax\<close>, the first position of the largest
  logit. The temperature is a float, modelled as a rational.
\<close>

datatype next_token = Multinomial "rat list" | ArgMax nat

fun argmax_from :: "nat \<Rightarrow> rat \<Rightarrow> nat \<Rightarrow> rat list \<Rightarrow> nat" where
  "argmax_from best b i [] = best"
| "argmax_from best b i (x # xs) =
     (if b < x then argmax_from i x (i + 1) xs else argmax_from best b (i + 1) xs)"

definition argmax :: "rat list \<Rightarrow> error + nat" where
  "argmax xs = (case xs of [] \<Rightarrow> Inl IndexError | x # rest \<Rightarrow> Inr (argmax_from 0 x 1 rest))"

definition opt_output_embed :: "rat list list \<Rightarrow> bool \<Rightarrow> rat \<Rightarrow> error + next_token" where
  "opt_output_embed logits do_sample temperature =
     (if logits = [] then Inl IndexError
      else
        let last_token_logits = last logits in
        if do_sample \<and> \<not> temperature < 1 / 100000 then
          Inr (Multinomial (map (\<lambda>x. x / temperature) last_token_logits))
        else
          (case argmax last_token_logits of
             Inl e \<Rightarrow> Inl e
           | Inr i \<Rightarrow> Inr (ArgMax i)))"

section \<open>Example states\<close>

text \<open>
  A key/value cache of shape \<open>(4, 100, 8)\<close> split 50/30/20 over an accelerator, the
  host and a disk (handles 0 to 2 are the segments, handle 3 the mixed tensor), and a
  tensor of the same shape on the accelerator (handle 4).
\<close>

definition example_devices :: "device list" where
  "example_devices = [TorchDevice (cuda 0), TorchDevice cpu, TorchDisk ''/d'']"

definition example_gpu_seg :: TorchTensor where
  "example_gpu_seg =
     \<lparr>shape = [4, 50, 8], data = Some (Native False),
      device = Some (TorchDevice (cuda 0)), delete_file = True, name = ''t_0''\<rparr>"

definition example_cpu_seg :: TorchTensor where
  "example_cpu_seg =
     \<lparr>shape = [4, 30, 8], data = Some (Native False),
      device = Some (TorchDevice cpu), delete_file = True, name = ''t_1''\<rparr>"

definition example_disk_seg :: TorchTensor where
  "example_disk_seg =
     \<lparr>shape = [4, 20, 8], data = Some (Filename ''/d/t_2''),
      device = Some (TorchDisk ''/d''), delete_file = True, name = ''t_2''\<rparr>"

definition example_mixed :: TorchTensor where
  "example_mixed =
     \<lparr>shape = [4, 100, 8],
      data = Some (Segments [Some 0, Some 1, Some 2] [0, 50, 80, 100]),
      device = Some (TorchMixedDevice example_devices), delete_file = True, name = ''t_3''\<rparr>"

definition example_gpu_full :: TorchTensor where
  "example_gpu_full =
     \<lparr>shape = [4, 100, 8], data = Some (Native False),
      device = Some (TorchDevice (cuda 0)), delete_file = True, name = ''t_4''\<rparr>"

definition example_world :: world where
  "example_world =
     \<lparr>objects = (\<lambda>r. None)
        (0 \<mapsto> example_gpu_seg, 1 \<mapsto> example_cpu_seg, 2 \<mapsto> example_disk_seg,
         3 \<mapsto> example_mixed, 4 \<mapsto> example_gpu_full),
      next_ref = 5, name_count = 5, files = {''/d/t_2''}\<rparr>"

definition example_pinned :: TorchTensor where
  "example_pinned =
     \<lparr>shape = [4, 100, 8], data = Some (Native True),
      device = Some (TorchDevice cpu), delete_file = True, name = ''t_5''\<rparr>"

definition example_store :: store where
  "example_store = (objects example_world)(5 \<mapsto> example_pinned)"

definition empty_world :: world where
  "empty_world = \<lparr>objects = (\<lambda>r. None), next_ref = 0, name_count = 0, files = {}\<rparr>"

definition example_config :: cache_config where
  "example_config =
     \<lparr>n_head = 10, input_dim = 80, prompt_len = 3, gen_len = 2, gpu_batch_size = 10,
      cache_gpu_percent = 50, cache_cpu_percent = 30, cache_disk_percent = 20\<rparr>"



text \<open>
  A token table of seven rows of width one, whose row for the pad token 1 is zero, and a
  position table of seven rows.
\<close>

definition example_w_token :: "rat list list" where
  "example_w_token = [[0], [0], [0], [0], [0], [50], [60]]"

definition example_w_pos :: "rat list list" where
  "example_w_pos = [[0], [100], [200], [300], [400], [500], [600]]"

text \<open>
  The example world after \<open>delete\<close> of the disk segment (handle 2), and copy tasks on
  the example handles: from the disk segment into the host segment, from the accelerator
  into the host segment, from the accelerator onto the disk, and a copy between two
  accelerator tensors.
\<close>

definition example_deleted_world :: world where
  "example_deleted_world =
     example_world
       \<lparr>objects := (objects example_world)(2 \<mapsto> example_disk_seg\<lparr>device := None, data := None\<rparr>),
        files := {}\<rparr>"

definition example_task_from_disk :: copy_task where
  "example_task_from_disk = CopyTask 1 (Some [Slice 0 4 None, Slice 0 20 None]) 2 None"

definition example_task_to_host :: copy_task where
  "example_task_to_host = CopyTask 1 None 4 (Some [Slice 0 4 None, Slice 0 30 None])"

definition example_task_to_disk :: copy_task where
  "example_task_to_disk = CopyTask 2 None 4 (Some [Slice 0 4 None, Slice 0 20 None])"

definition example_task_on_device :: copy_task where
  "example_task_on_device = CopyTask 0 None 4 (Some [Slice 0 4 None, Slice 0 50 None])"

text \<open>
  A disk backend with the default four threads after three calls of \<open>general_copy\<close>:
  two tasks on its queue and one device copy in flight.
\<close>

definition example_disk_state :: disk_state where
  "example_disk_state =
     start_action
       (start_action
          (start_action (TorchDisk_init 4) (SubmitCopy (TorchDisk ''/d'') example_task_from_disk))
          (SubmitCopy (TorchDisk ''/d'') example_task_to_disk))
       (DirectCopy example_task_on_device)"

text \<open>The same backend with the read from disk and the copy to the host on its queue.\<close>

definition example_stalled_state :: disk_state where
  "example_stalled_state =
     start_action
       (start_action (TorchDisk_init 4) (SubmitCopy (TorchDisk ''/d'') example_task_from_disk))
       (SubmitCopy (TorchDisk ''/d'') example_task_to_host)"

text \<open>
  What a run of worker threads leaves of the queue \<open>q\<close>, the count \<open>u\<close> and the log
  \<open>lg\<close>: the count still covers the queue, the excess of the count over the queue does
  not shrink, the log only grows, every task of the queue is still queued, or logged, or
  the count exceeds the queue, and a task whose copy raises is still queued or the count
  exceeds the queue.
\<close>

definition queue_progress ::
  "(copy_task \<Rightarrow> error option) \<Rightarrow> world \<Rightarrow> copy_task option list \<Rightarrow> nat
     \<Rightarrow> (copy_task \<times> bool) list \<Rightarrow> copy_task option list \<Rightarrow> nat
     \<Rightarrow> (copy_task \<times> bool) list \<Rightarrow> bool" where
  "queue_progress torch_copy w q u lg q' u' lg' \<longleftrightarrow>
     length q' \<le> u' \<and> u - length q \<le> u' - length q' \<and> set lg \<subseteq> set lg'
     \<and> (\<forall>t. Some t \<in> set q \<longrightarrow> Some t \<in> set q' \<or> t \<in> fst ` set lg' \<or> length q' < u')
     \<and> (\<forall>t e. Some t \<in> set q \<and> run_copy_task torch_copy w t = Inl e \<longrightarrow>
            Some t \<in> set q' \<or> length q' < u')"


section \<open>Properties\<close>

subsection \<open>\<open>cut_indices\<close> and the recursion through segments\<close>

lemma cut_indices_ok:
  assumes "list_all (\<lambda>x. step x = None) indices" and "SEG_DIM < length indices"
  shows "cut_indices indices lo hi base =
           Inr (indices[SEG_DIM := Slice (max (start (indices ! SEG_DIM)) lo - base)
                                         (min (stop (indices ! SEG_DIM)) hi - base) None])"
proof -
  have "indices[SEG_DIM := x] = take SEG_DIM indices @ [x] @ drop (SEG_DIM + 1) indices" for x
    using assms(2) by (simp add: upd_conv_take_nth_drop)
  then show ?thesis
    using assms by (simp add: cut_indices_def Let_def)
qed

lemma to_segment_cut:
  assumes "to_segment d di s si i = Inr (Some (sub, td, ts))"
  shows "\<exists>tensors sp. data d = Some (Segments tensors sp) \<and> sub = tensors ! i \<and>
           cut_indices (indices_or_full di (shape d)) (sp ! i) (sp ! (i + 1)) (sp ! i) = Inr td \<and>
           cut_indices (indices_or_full si (shape s)) (sp ! i) (sp ! (i + 1)) 0 = Inr ts"
  using assms
  by (auto simp: to_segment_def split: option.splits tensor_data.splits if_splits sum.splits)

lemma from_segment_cut:
  assumes "from_segment d di s si i = Inr (Some (sub, td, ts))"
  shows "\<exists>tensors sp. data s = Some (Segments tensors sp) \<and> sub = tensors ! i \<and>
           cut_indices (indices_or_full di (shape d)) (sp ! i) (sp ! (i + 1)) 0 = Inr td \<and>
           cut_indices (indices_or_full si (shape s)) (sp ! i) (sp ! (i + 1)) (sp ! i) = Inr ts"
  using assms
  by (auto simp: from_segment_def split: option.splits tensor_data.splits if_splits sum.splits)

text \<open>
  Claim C5. For a tuple of slices without a step that has an entry for the segment axis
  (axis 1), \<open>cut_indices indices lo hi base\<close> returns the tuple with that entry alone
  replaced, the range \<open>[a, b)\<close> by \<open>[max a lo - base, min b hi - base)\<close>. Both
  recursions of \<open>general_copy\<close> through a mixed tensor use it: with a mixed
  destination each call on a segment gets the destination range cut and re-based by the
  segment's start and the source range cut with base 0; with a mixed source it is the
  other way round.
\<close>

theorem cut_indices_rebases_seg_dim:
  "(list_all (\<lambda>x. step x = None) indices \<and> SEG_DIM < length indices \<longrightarrow>
      cut_indices indices lo hi base =
        Inr (indices[SEG_DIM := Slice (max (start (indices ! SEG_DIM)) lo - base)
                                      (min (stop (indices ! SEG_DIM)) hi - base) None]))
   \<and> (handle_device h dst = Inr (d, ddev) \<and> device_type ddev = MIXED \<and>
        handle_device h src = Inr (s, sdev) \<and> device_type sdev \<noteq> MIXED \<longrightarrow>
        general_copy (Suc depth) h gdd dst di src si =
          copy_segments (to_segment d di s si)
            (\<lambda>sub td ts. general_copy depth h gdd sub (Some td) src (Some ts))
            [0 ..< length (base_devices ddev)])
   \<and> (to_segment d di s si i = Inr (Some (sub, td, ts)) \<longrightarrow>
        (\<exists>tensors sp. data d = Some (Segments tensors sp) \<and> sub = tensors ! i \<and>
           cut_indices (indices_or_full di (shape d)) (sp ! i) (sp ! (i + 1)) (sp ! i) = Inr td \<and>
           cut_indices (indices_or_full si (shape s)) (sp ! i) (sp ! (i + 1)) 0 = Inr ts))
   \<and> (handle_device h dst = Inr (d, ddev) \<and> device_type ddev \<noteq> MIXED \<and>
        handle_device h src = Inr (s, sdev) \<and> device_type sdev = MIXED \<longrightarrow>
        general_copy (Suc depth) h gdd dst di src si =
          copy_segments (from_segment d di s si)
            (\<lambda>sub td ts. general_copy depth h gdd dst (Some td) sub (Some ts))
            [0 ..< length (base_devices sdev)])
   \<and> (from_segment d di s si i = Inr (Some (sub, td, ts)) \<longrightarrow>
        (\<exists>tensors sp. data s = Some (Segments tensors sp) \<and> sub = tensors ! i \<and>
           cut_indices (indices_or_full di (shape d)) (sp ! i) (sp ! (i + 1)) 0 = Inr td \<and>
           cut_indices (indices_or_full si (shape s)) (sp ! i) (sp ! (i + 1)) (sp ! i) = Inr ts))"
  using cut_indices_ok [of indices lo hi base] to_segment_cut [of d di s si i sub td ts]
    from_segment_cut [of d di s si i sub td ts]
  by simp


theorem cut_indices_rebases_seg_dim_witness:
  "cut_indices [Slice 0 4 None, Slice 10 60 None, Slice 0 8 None] 50 80 50 =
     Inr [Slice 0 4 None, Slice 0 10 None, Slice 0 8 None]
   \<and> to_segment example_mixed None example_gpu_full None 1 =
       Inr (Some (Some 1, [Slice 0 4 None, Slice 0 30 None, Slice 0 8 None],
                  [Slice 0 4 None, Slice 50 80 None, Slice 0 8 None]))
   \<and> cut_indices [Slice 0 4 None, Slice 0 100 None, Slice 0 8 None] 50 80 50 =
       Inr [Slice 0 4 None, Slice 0 30 None, Slice 0 8 None]
   \<and> cut_indices [Slice 0 4 None, Slice 0 100 None, Slice 0 8 None] 50 80 0 =
       Inr [Slice 0 4 None, Slice 50 80 None, Slice 0 8 None]
   \<and> general_copy (Suc (Suc 0)) (objects example_world) (Some (TorchDisk ''/d'')) 3 None 4 None =
       Inr [DirectCopy
              (CopyTask 0 (Some [Slice 0 4 None, Slice 0 50 None, Slice 0 8 None])
                 4 (Some [Slice 0 4 None, Slice 0 50 None, Slice 0 8 None])),
            SubmitCopy (TorchDisk ''/d'')
              (CopyTask 1 (Some [Slice 0 4 None, Slice 0 30 None, Slice 0 8 None])
                 4 (Some [Slice 0 4 None, Slice 50 80 None, Slice 0 8 None])),
            SubmitCopy (TorchDisk ''/d'')
              (CopyTask 2 (Some [Slice 0 4 None, Slice 0 20 None, Slice 0 8 None])
                 4 (Some [Slice 0 4 None, Slice 80 100 None, Slice 0 8 None]))]
   \<and> from_segment example_gpu_full None example_mixed None 2 =
       Inr (Some (Some 2, [Slice 0 4 None, Slice 80 100 None, Slice 0 8 None],
                  [Slice 0 4 None, Slice 0 20 None, Slice 0 8 None]))
   \<and> general_copy (Suc (Suc 0)) (objects example_world) (Some (TorchDisk ''/d'')) 4 None 3 None =
       Inr [DirectCopy
              (CopyTask 4 (Some [Slice 0 4 None, Slice 0 50 None, Slice 0 8 None])
                 0 (Some [Slice 0 4 None, Slice 0 50 None, Slice 0 8 None])),
            PinnedCopy
              (CopyTask 4 (Some [Slice 0 4 None, Slice 50 80 None, Slice 0 8 None])
                 1 (Some [Slice 0 4 None, Slice 0 30 None, Slice 0 8 None])),
            SubmitCopy (TorchDisk ''/d'')
              (CopyTask 4 (Some [Slice 0 4 None, Slice 80 100 None, Slice 0 8 None])
                 2 (Some [Slice 0 4 None, Slice 0 20 None, Slice 0 8 None]))]"
proof -
  let ?h = "objects example_world" and ?g = "Some (TorchDisk ''/d'')"
  let ?mixed = "TorchMixedDevice example_devices" and ?gpu = "TorchDevice (cuda 0)"
  let ?ts1 = "to_segment example_mixed None example_gpu_full None 1"
  let ?fs2 = "from_segment example_gpu_full None example_mixed None 2"
  have hm: "handle_device ?h 3 = Inr (example_mixed, ?mixed)"
    and hg: "handle_device ?h 4 = Inr (example_gpu_full, ?gpu)"
    and ty: "device_type ?mixed = MIXED" "device_type ?gpu \<noteq> MIXED"
    by code_simp+
  have steps: "list_all (\<lambda>x. step x = None) [Slice 0 4 None, Slice 10 60 None, Slice 0 8 None]"
    "SEG_DIM < length [Slice 0 4 None, Slice 10 60 None, Slice 0 8 None]"
    by code_simp+
  have t1: "?ts1 = Inr (Some (Some 1, [Slice 0 4 None, Slice 0 30 None, Slice 0 8 None],
                             [Slice 0 4 None, Slice 50 80 None, Slice 0 8 None]))"
    and f2: "?fs2 = Inr (Some (Some 2, [Slice 0 4 None, Slice 80 100 None, Slice 0 8 None],
                             [Slice 0 4 None, Slice 0 20 None, Slice 0 8 None]))"
    by code_simp+
  note into = cut_indices_rebases_seg_dim
    [where indices = "[Slice 0 4 None, Slice 10 60 None, Slice 0 8 None]"
       and lo = 50 and hi = 80 and base = 50 and h = ?h and gdd = ?g and depth = "Suc 0"
       and dst = 3 and d = example_mixed and ddev = ?mixed
       and src = 4 and s = example_gpu_full and sdev = ?gpu
       and di = None and si = None and i = 1 and sub = "Some 1"
       and td = "[Slice 0 4 None, Slice 0 30 None, Slice 0 8 None]"
       and ts = "[Slice 0 4 None, Slice 50 80 None, Slice 0 8 None]"]
  note outof = cut_indices_rebases_seg_dim
    [where indices = "[Slice 0 4 None, Slice 10 60 None, Slice 0 8 None]"
       and lo = 50 and hi = 80 and base = 50 and h = ?h and gdd = ?g and depth = "Suc 0"
       and dst = 4 and d = example_gpu_full and ddev = ?gpu
       and src = 3 and s = example_mixed and sdev = ?mixed
       and di = None and si = None and i = 2 and sub = "Some 2"
       and td = "[Slice 0 4 None, Slice 80 100 None, Slice 0 8 None]"
       and ts = "[Slice 0 4 None, Slice 0 20 None, Slice 0 8 None]"]
  have c1: "cut_indices [Slice 0 4 None, Slice 10 60 None, Slice 0 8 None] 50 80 50 =
              Inr [Slice 0 4 None, Slice 0 10 None, Slice 0 8 None]"
    using into steps by (simp add: SEG_DIM_def)
  have c2: "general_copy (Suc (Suc 0)) ?h ?g 3 None 4 None =
              copy_segments (to_segment example_mixed None example_gpu_full None)
                (\<lambda>sub td ts. general_copy (Suc 0) ?h ?g sub (Some td) 4 (Some ts))
                [0 ..< length (base_devices ?mixed)]"
    using into hm hg ty by blast
  have c3: "\<exists>tensors sp. data example_mixed = Some (Segments tensors sp) \<and> Some 1 = tensors ! 1 \<and>
              cut_indices (indices_or_full None (shape example_mixed)) (sp ! 1) (sp ! (1 + 1)) (sp ! 1)
                = Inr [Slice 0 4 None, Slice 0 30 None, Slice 0 8 None] \<and>
              cut_indices (indices_or_full None (shape example_gpu_full)) (sp ! 1) (sp ! (1 + 1)) 0
                = Inr [Slice 0 4 None, Slice 50 80 None, Slice 0 8 None]"
    using into t1 by blast
  have c4: "general_copy (Suc (Suc 0)) ?h ?g 4 None 3 None =
              copy_segments (from_segment example_gpu_full None example_mixed None)
                (\<lambda>sub td ts. general_copy (Suc 0) ?h ?g 4 (Some td) sub (Some ts))
                [0 ..< length (base_devices ?mixed)]"
    using outof hm hg ty by blast
  have c3': "cut_indices [Slice 0 4 None, Slice 0 100 None, Slice 0 8 None] 50 80 50 =
               Inr [Slice 0 4 None, Slice 0 30 None, Slice 0 8 None]"
    "cut_indices [Slice 0 4 None, Slice 0 100 None, Slice 0 8 None] 50 80 0 =
               Inr [Slice 0 4 None, Slice 50 80 None, Slice 0 8 None]"
    using c3 by (auto simp: example_mixed_def example_gpu_full_def)
  have e2: "copy_segments (to_segment example_mixed None example_gpu_full None)
                (\<lambda>sub td ts. general_copy (Suc 0) ?h ?g sub (Some td) 4 (Some ts))
                [0 ..< length (base_devices ?mixed)] =
       Inr [DirectCopy
              (CopyTask 0 (Some [Slice 0 4 None, Slice 0 50 None, Slice 0 8 None])
                 4 (Some [Slice 0 4 None, Slice 0 50 None, Slice 0 8 None])),
            SubmitCopy (TorchDisk ''/d'')
              (CopyTask 1 (Some [Slice 0 4 None, Slice 0 30 None, Slice 0 8 None])
                 4 (Some [Slice 0 4 None, Slice 50 80 None, Slice 0 8 None])),
            SubmitCopy (TorchDisk ''/d'')
              (CopyTask 2 (Some [Slice 0 4 None, Slice 0 20 None, Slice 0 8 None])
                 4 (Some [Slice 0 4 None, Slice 80 100 None, Slice 0 8 None]))]"
    by code_simp
  have e4: "copy_segments (from_segment example_gpu_full None example_mixed None)
                (\<lambda>sub td ts. general_copy (Suc 0) ?h ?g 4 (Some td) sub (Some ts))
                [0 ..< length (base_devices ?mixed)] =
       Inr [DirectCopy
              (CopyTask 4 (Some [Slice 0 4 None, Slice 0 50 None, Slice 0 8 None])
                 0 (Some [Slice 0 4 None, Slice 0 50 None, Slice 0 8 None])),
            PinnedCopy
              (CopyTask 4 (Some [Slice 0 4 None, Slice 50 80 None, Slice 0 8 None])
                 1 (Some [Slice 0 4 None, Slice 0 30 None, Slice 0 8 None])),
            SubmitCopy (TorchDisk ''/d'')
              (CopyTask 4 (Some [Slice 0 4 None, Slice 80 100 None, Slice 0 8 None])
                 2 (Some [Slice 0 4 None, Slice 0 20 None, Slice 0 8 None]))]"
    by code_simp
  show ?thesis
    using c1 t1 c3' f2 c2 c4 e2 e4 by simp
qed

subsection \<open>Dispatch of a copy from the accelerator to the host\<close>

text \<open>
  Claim C6, as amended. A \<open>general_copy\<close> from a tensor on the accelerator to a
  tensor in host memory is put on the worker queue of \<open>global_disk_device\<close> exactly
  when the destination is not pinned and the source tensor's own first extent,
  \<open>src.shape[0]\<close>, exceeds one, whatever ranges are copied; otherwise the call
  issues the plain non-blocking copy. (With no disk device constructed, the enqueueing
  branch fails on \<open>None\<close>.)
\<close>

theorem gpu_to_host_copy_dispatch:
  assumes "handle_device h dst = Inr (d, ddev)" and "device_type ddev = CPU"
    and "handle_device h src = Inr (s, sdev)" and "device_type sdev = CUDA"
    and "data d = Some (Native pinned)" and "shape s = n # rest"
  shows "general_copy (Suc depth) h gdd dst di src si =
           (if \<not> pinned \<and> 1 < n then
              (case gdd of
                 None \<Rightarrow> Inl AttributeError
               | Some disk \<Rightarrow> Inr [SubmitCopy disk (CopyTask dst di src si)])
            else Inr [DirectCopy (CopyTask dst di src si)])"
  using assms by (simp add: memory_copy_def Let_def)

theorem gpu_to_host_copy_dispatch_witness:
  "general_copy (Suc 0) example_store (Some (TorchDisk ''/d'')) 1 None 4 None =
     Inr [SubmitCopy (TorchDisk ''/d'') (CopyTask 1 None 4 None)]
   \<and> general_copy (Suc 0) example_store (Some (TorchDisk ''/d'')) 5 None 4 None =
     Inr [DirectCopy (CopyTask 5 None 4 None)]"
proof -
  have h1: "handle_device example_store 1 = Inr (example_cpu_seg, TorchDevice cpu)"
    and h4: "handle_device example_store 4 = Inr (example_gpu_full, TorchDevice (cuda 0))"
    and h5: "handle_device example_store 5 = Inr (example_pinned, TorchDevice cpu)"
    and ty: "device_type (TorchDevice cpu) = CPU" "device_type (TorchDevice (cuda 0)) = CUDA"
    and d1: "data example_cpu_seg = Some (Native False)"
    and d5: "data example_pinned = Some (Native True)"
    and s4: "shape example_gpu_full = 4 # [100, 8]"
    by code_simp+
  show ?thesis
    using gpu_to_host_copy_dispatch [OF h1 ty(1) h4 ty(2) d1 s4, of 0 "Some (TorchDisk ''/d'')" None None]
      gpu_to_host_copy_dispatch [OF h5 ty(1) h4 ty(2) d5 s4, of 0 "Some (TorchDisk ''/d'')" None None]
    by simp
qed

text \<open>
  The claim as written speaks of the transfer spanning more than one outer element. A
  copy of the single row \<open>[0, 1)\<close> of a four-row accelerator tensor into unpinned host
  memory transfers one outer element, and is enqueued all the same.
\<close>

theorem one_row_transfer_is_enqueued:
  "copy_shape example_gpu_full (Some [Slice 0 1 None, Slice 0 30 None]) = Inr [1, 30, 8]
   \<and> is_pinned (data example_cpu_seg) = Inr False
   \<and> general_copy (Suc 0) example_store (Some (TorchDisk ''/d''))
        1 (Some [Slice 0 1 None]) 4 (Some [Slice 0 1 None, Slice 0 30 None]) =
      Inr [SubmitCopy (TorchDisk ''/d'')
             (CopyTask 1 (Some [Slice 0 1 None]) 4 (Some [Slice 0 1 None, Slice 0 30 None]))]"
  by code_simp

subsection \<open>Deleting handles\<close>

text \<open>
  Claim C7. \<open>delete\<close> on a live handle (whose payload, on a disk, is its file name)
  succeeds and invalidates the handle: its \<open>device\<close> and \<open>data\<close> become \<open>None\<close>.
  For a disk handle with \<open>delete_file\<close> set the backing file is gone afterwards; no
  other \<open>delete\<close> touches the files. A second \<open>delete\<close> of the handle fails with
  the assertion \<open>already deleted\<close>.
\<close>

theorem delete_invalidates_and_guards:
  assumes "objects w r = Some t" and "device t = Some dv"
    and "device_type dv = DISK \<longrightarrow> data t = Some (Filename path)"
  shows "\<exists>w'. TorchTensor_delete w r = Inr w'
           \<and> objects w' r = Some (t\<lparr>device := None, data := None\<rparr>)
           \<and> files w' = (if device_type dv = DISK \<and> delete_file t then files w - {path}
                         else files w)
           \<and> TorchTensor_delete w' r = Inl (AssertionError ''already deleted'')"
  using assms by (auto simp: TorchTensor_delete_def TorchDisk_delete_def)

theorem delete_invalidates_and_guards_witness:
  "(\<exists>w'. TorchTensor_delete example_world 2 = Inr w'
      \<and> objects w' 2 = Some (example_disk_seg\<lparr>device := None, data := None\<rparr>)
      \<and> files w' = {}
      \<and> TorchTensor_delete w' 2 = Inl (AssertionError ''already deleted''))
   \<and> (\<exists>w'. TorchTensor_delete example_world 1 = Inr w'
      \<and> objects w' 1 = Some (example_cpu_seg\<lparr>device := None, data := None\<rparr>)
      \<and> files w' = {''/d/t_2''}
      \<and> TorchTensor_delete w' 1 = Inl (AssertionError ''already deleted''))"
proof -
  have o2: "objects example_world 2 = Some example_disk_seg"
    and o1: "objects example_world 1 = Some example_cpu_seg"
    by (simp_all add: example_world_def)
  have d2: "device example_disk_seg = Some (TorchDisk ''/d'')"
    and d1: "device example_cpu_seg = Some (TorchDevice cpu)"
    by (simp_all add: example_disk_seg_def example_cpu_seg_def)
  have p2: "device_type (TorchDisk ''/d'') = DISK \<longrightarrow> data example_disk_seg = Some (Filename ''/d/t_2'')"
    and p1: "device_type (TorchDevice cpu) = DISK \<longrightarrow> data example_cpu_seg = Some (Filename [])"
    by (simp_all add: example_disk_seg_def)
  have f: "files example_world = {''/d/t_2''}" "delete_file example_disk_seg"
    by (simp_all add: example_world_def example_disk_seg_def)
  show ?thesis
    using delete_invalidates_and_guards [OF o2 d2 p2] delete_invalidates_and_guards [OF o1 d1 p1] f
    by simp
qed

text \<open>
  Claim C9. \<open>delete\<close> on a handle of a mixed device only clears that handle: every
  other object of the store, the segments among them, is as before, and no file is
  removed. \<open>TorchMixedDevice.delete\<close> is not called (the call succeeds, while that
  method fails with \<open>AttributeError\<close> whenever it is called).
\<close>

theorem mixed_delete_leaves_segments:
  assumes "objects w r = Some t" and "device t = Some dv" and "device_type dv = MIXED"
  shows "TorchTensor_delete w r =
           Inr (w\<lparr>objects := (objects w)(r \<mapsto> t\<lparr>device := None, data := None\<rparr>)\<rparr>)
         \<and> (\<forall>w'. TorchTensor_delete w r = Inr w' \<longrightarrow>
               files w' = files w \<and> (\<forall>r'. r' \<noteq> r \<longrightarrow> objects w' r' = objects w r'))
         \<and> TorchMixedDevice_delete w t = Inl AttributeError"
  using assms by (auto simp: TorchTensor_delete_def TorchMixedDevice_delete_def)

theorem mixed_delete_leaves_segments_witness:
  "(\<exists>w'. TorchTensor_delete example_world 3 = Inr w'
      \<and> objects w' 3 = Some (example_mixed\<lparr>device := None, data := None\<rparr>)
      \<and> objects w' 0 = Some example_gpu_seg
      \<and> objects w' 1 = Some example_cpu_seg
      \<and> objects w' 2 = Some example_disk_seg
      \<and> device example_disk_seg = Some (TorchDisk ''/d'')
      \<and> files w' = {''/d/t_2''})
   \<and> TorchMixedDevice_delete example_world example_mixed = Inl AttributeError"
proof -
  have o3: "objects example_world 3 = Some example_mixed"
    and os: "objects example_world 0 = Some example_gpu_seg"
      "objects example_world 1 = Some example_cpu_seg"
      "objects example_world 2 = Some example_disk_seg"
    and f: "files example_world = {''/d/t_2''}"
    by (simp_all add: example_world_def)
  have d3: "device example_mixed = Some (TorchMixedDevice example_devices)"
    and ds: "device example_disk_seg = Some (TorchDisk ''/d'')"
    by (simp_all add: example_mixed_def example_disk_seg_def)
  have ty: "device_type (TorchMixedDevice example_devices) = MIXED"
    by simp
  show ?thesis
    using mixed_delete_leaves_segments [OF o3 d3 ty] os f ds by simp
qed

subsection \<open>The output stage's choice of the next token\<close>

lemma argmax_from_first_max:
  assumes "best < length ys" and "\<forall>j<length ys. ys ! j \<le> ys ! best"
    and "\<forall>j<best. ys ! j < ys ! best"
  shows "argmax_from best (ys ! best) (length ys) xs < length (ys @ xs)
         \<and> (\<forall>j<length (ys @ xs). (ys @ xs) ! j \<le> (ys @ xs) ! argmax_from best (ys ! best) (length ys) xs)
         \<and> (\<forall>j<argmax_from best (ys ! best) (length ys) xs.
               (ys @ xs) ! j < (ys @ xs) ! argmax_from best (ys ! best) (length ys) xs)"
  using assms
proof (induction xs arbitrary: ys best)
  case Nil
  then show ?case by simp
next
  case (Cons x xs)
  let ?zs = "ys @ [x]"
  show ?case
  proof (cases "ys ! best < x")
    case True
    have a: "length ys < length ?zs" by simp
    have b: "\<forall>j<length ?zs. ?zs ! j \<le> ?zs ! length ys"
      using Cons.prems True by (auto simp: nth_append less_Suc_eq intro: order.trans less_imp_le)
    have c: "\<forall>j<length ys. ?zs ! j < ?zs ! length ys"
      using Cons.prems True by (auto simp: nth_append intro: le_less_trans)
    have "?zs ! length ys = x" by simp
    with Cons.IH [of "length ys" ?zs, OF a b c] True show ?thesis
      by simp
  next
    case False
    have a: "best < length ?zs" using Cons.prems by simp
    have b: "\<forall>j<length ?zs. ?zs ! j \<le> ?zs ! best"
      using Cons.prems False by (auto simp: nth_append less_Suc_eq)
    have c: "\<forall>j<best. ?zs ! j < ?zs ! best"
      using Cons.prems by (auto simp: nth_append)
    have "?zs ! best = ys ! best" using Cons.prems by (simp add: nth_append)
    with Cons.IH [of best ?zs, OF a b c] False show ?thesis
      by simp
  qed
qed

lemma argmax_first_max:
  assumes "argmax xs = Inr i"
  shows "i < length xs \<and> (\<forall>j<length xs. xs ! j \<le> xs ! i) \<and> (\<forall>j<i. xs ! j < xs ! i)"
proof (cases xs)
  case Nil
  with assms show ?thesis by (simp add: argmax_def)
next
  case (Cons x rest)
  with assms have i: "i = argmax_from 0 x 1 rest" by (simp add: argmax_def)
  from argmax_from_first_max [of 0 "[x]" rest] show ?thesis
    unfolding i Cons by simp
qed

lemma argmax_total: "xs \<noteq> [] \<Longrightarrow> \<exists>i. argmax xs = Inr i"
  by (cases xs) (simp_all add: argmax_def)

text \<open>
  Claim C10. For logits with at least one position and a non-empty vocabulary,
  \<open>opt_output_embed\<close> samples (multinomial over the softmax of the last position's
  logits divided by the temperature) exactly when \<open>do_sample\<close> holds and the
  temperature is at least \<open>1e-5\<close>; in every other case, \<open>do_sample\<close> with a smaller
  temperature included, it returns the arg-max of the last position's logits: the first
  position holding the largest logit.
\<close>

theorem sampling_only_above_temperature_threshold:
  assumes "logits \<noteq> []" and "last logits \<noteq> []"
  shows "(do_sample \<and> 1 / 100000 \<le> temperature \<longrightarrow>
            opt_output_embed logits do_sample temperature =
              Inr (Multinomial (map (\<lambda>x. x / temperature) (last logits))))
         \<and> (\<not> (do_sample \<and> 1 / 100000 \<le> temperature) \<longrightarrow>
            (\<exists>i. opt_output_embed logits do_sample temperature = Inr (ArgMax i)
                 \<and> i < length (last logits)
                 \<and> (\<forall>j<length (last logits). last logits ! j \<le> last logits ! i)
                 \<and> (\<forall>j<i. last logits ! j < last logits ! i)))"
proof -
  obtain i where i: "argmax (last logits) = Inr i"
    using argmax_total [OF assms(2)] by blast
  show ?thesis
    using assms(1) i argmax_first_max [OF i]
    by (auto simp: opt_output_embed_def Let_def not_less)
qed

theorem sampling_only_above_temperature_threshold_witness:
  "opt_output_embed [[1, 2], [3, 5, 4, 5]] True 2 = Inr (Multinomial [3 / 2, 5 / 2, 2, 5 / 2])
   \<and> opt_output_embed [[1, 2], [3, 5, 4, 5]] True (1 / 1000000) = Inr (ArgMax 1)
   \<and> opt_output_embed [[1, 2], [3, 5, 4, 5]] False 2 = Inr (ArgMax 1)"
proof -
  have ne: "[[1, 2], [3, 5, 4, 5 :: rat]] \<noteq> []" "last [[1, 2], [3, 5, 4, 5 :: rat]] \<noteq> []"
    by simp_all
  have a: "True \<and> (1 :: rat) / 100000 \<le> 2" by simp
  have b: "\<not> (True \<and> (1 :: rat) / 100000 \<le> 1 / 1000000)" by simp
  have c: "opt_output_embed [[1, 2], [3, 5, 4, 5]] True (1 / 1000000) = Inr (ArgMax 1)"
    "opt_output_embed [[1, 2], [3, 5, 4, 5]] False 2 = Inr (ArgMax 1)"
    by code_simp+
  from sampling_only_above_temperature_threshold [OF ne, of True 2] a
  have "opt_output_embed [[1, 2], [3, 5, 4, 5]] True 2 =
          Inr (Multinomial (map (\<lambda>x. x / 2) (last [[1, 2], [3, 5, 4, 5]])))"
    by blast
  then show ?thesis using c by simp
qed

subsection \<open>Allocation on a mixed device\<close>

lemma length_seg_points_from: "length (seg_points_from a ls) = Suc (length ls)"
  by (induction ls arbitrary: a) auto

lemma seg_points_from_nth:
  "i \<le> length ls \<Longrightarrow> seg_points_from a ls ! i = a + sum_list (take i ls)"
proof (induction ls arbitrary: a i)
  case Nil
  then show ?case by simp
next
  case (Cons l ls)
  then show ?case by (cases i) (auto simp: add.assoc)
qed

lemma seg_points_from_diff:
  assumes "i < length ls"
  shows "seg_points_from a ls ! (i + 1) - seg_points_from a ls ! i = ls ! i"
proof -
  have "take (Suc i) ls = take i ls @ [ls ! i]"
    using assms by (simp add: take_Suc_conv_app_nth)
  then show ?thesis
    using assms by (simp add: seg_points_from_nth)
qed

lemma name_or_next_frame:
  "name_or_next nm w = (nm', w') \<Longrightarrow>
     objects w' = objects w \<and> next_ref w' = next_ref w \<and> files w \<subseteq> files w'"
  by (auto simp: name_or_next_def split: option.splits list.splits)

lemma base_allocate_new:
  assumes "base_allocate w dv shp pin = Inr (r, w')"
  shows "r = next_ref w \<and> next_ref w' = Suc (next_ref w)
         \<and> (\<exists>st. objects w' r = Some st \<and> shape st = shp)
         \<and> (\<forall>r'. r' \<noteq> r \<longrightarrow> objects w' r' = objects w r')"
proof (cases dv)
  case (TorchDevice dev)
  with assms show ?thesis
    by (auto simp: TorchDevice_allocate_def new_tensor_def Let_def
          split: if_splits prod.splits dest!: name_or_next_frame)
next
  case (TorchDisk dir)
  with assms show ?thesis
    by (auto simp: TorchDisk_allocate_def new_tensor_def Let_def
          split: if_splits prod.splits dest!: name_or_next_frame)
next
  case (TorchMixedDevice ds)
  with assms show ?thesis by simp
next
  case TorchCompressedDevice
  with assms show ?thesis by simp
qed

lemma allocate_segments_result:
  assumes "allocate_segments w devs sp shp pin i = Inr (ts, w')"
  shows "length ts = length devs \<and> next_ref w \<le> next_ref w'
         \<and> (\<forall>r<next_ref w. objects w' r = objects w r)
         \<and> (\<forall>j<length devs.
               (sp ! (i + j + 1) - sp ! (i + j) = 0 \<longrightarrow> ts ! j = None)
             \<and> (sp ! (i + j + 1) - sp ! (i + j) \<noteq> 0 \<longrightarrow>
                  (\<exists>sub st. ts ! j = Some sub \<and> sub < next_ref w' \<and> objects w' sub = Some st
                     \<and> shape st = seg_shape shp (sp ! (i + j + 1) - sp ! (i + j)))))"
  using assms
proof (induction devs arbitrary: w i ts)
  case Nil
  then show ?case by simp
next
  case (Cons dv rest)
  let ?l = "sp ! (i + 1) - sp ! i"
  show ?case
  proof (cases "?l = 0")
    case True
    with Cons.prems obtain ts' where
      rec: "allocate_segments w rest sp shp pin (i + 1) = Inr (ts', w')" and ts: "ts = None # ts'"
      by (auto simp: Let_def split: sum.splits)
    from Cons.IH [OF rec] True ts show ?thesis
      by (auto simp: nth_Cons split: nat.splits)
  next
    case False
    with Cons.prems obtain r w1 ts' where
      al: "base_allocate w dv (seg_shape shp ?l) pin = Inr (r, w1)" and
      rec: "allocate_segments w1 rest sp shp pin (i + 1) = Inr (ts', w')" and
      ts: "ts = Some r # ts'"
      by (auto simp: Let_def split: sum.splits)
    from base_allocate_new [OF al] obtain st where
      r: "r = next_ref w" and n1: "next_ref w1 = Suc (next_ref w)" and
      st: "shape st = seg_shape shp ?l" and o1: "objects w1 r = Some st" and
      o1': "\<forall>r'. r' \<noteq> r \<longrightarrow> objects w1 r' = objects w r'"
      by blast
    note IH = Cons.IH [OF rec]
    have keep: "objects w' r = Some st"
      using IH r n1 o1 by simp
    have lt: "r < next_ref w'"
      using IH r n1 by simp
    have old: "\<forall>r'<next_ref w. objects w' r' = objects w r'"
      using IH r n1 o1' by simp
    show ?thesis
      using IH False ts keep lt old st n1
      by (auto simp: nth_Cons split: nat.splits)
  qed
qed

lemma seg_shape_update: "SEG_DIM < length shp \<Longrightarrow> seg_shape shp l = shp[SEG_DIM := l]"
  by (simp add: seg_shape_def upd_conv_take_nth_drop)

text \<open>
  Claim C4. \<open>TorchMixedDevice.allocate\<close> refuses, by its assertion, segment lengths
  that do not sum to the shape's extent on axis 1. When it returns a handle, the lengths
  sum to that extent; the handle has the requested shape and one entry per length,
  \<open>None\<close> for a length of zero and otherwise a sub-handle whose shape is the full
  shape with axis 1 replaced by the length; and its segment points are the running sums
  of the lengths, starting at 0. The lengths that \<open>init_cache_one_gpu_batch\<close> computes
  from the policy's percentages always sum to the extent.
\<close>

theorem mixed_allocate_segments:
  "(SEG_DIM < length shp \<and> sum_list seg_lengths \<noteq> shp ! SEG_DIM \<longrightarrow>
      TorchMixedDevice_allocate w devices shp seg_lengths pin nm = Inl (AssertionError []))
   \<and> (TorchMixedDevice_allocate w devices shp seg_lengths pin nm = Inr (r, w') \<longrightarrow>
      sum_list seg_lengths = shp ! SEG_DIM
      \<and> (\<exists>tensors t.
            objects w' r = Some t \<and> shape t = shp
          \<and> data t = Some (Segments tensors (seg_points_from 0 seg_lengths))
          \<and> length tensors = length seg_lengths
          \<and> (\<forall>i<length seg_lengths.
                (seg_lengths ! i = 0 \<longrightarrow> tensors ! i = None)
              \<and> (seg_lengths ! i \<noteq> 0 \<longrightarrow>
                   (\<exists>sub st. tensors ! i = Some sub \<and> objects w' sub = Some st
                      \<and> shape st = shp[SEG_DIM := seg_lengths ! i]))))
      \<and> length (seg_points_from 0 seg_lengths) = length seg_lengths + 1
      \<and> (\<forall>i\<le>length seg_lengths.
            seg_points_from 0 seg_lengths ! i = sum_list (take i seg_lengths)))
   \<and> sum_list (cache_seg_lengths c) = cache_shape c ! SEG_DIM"
proof (intro conjI impI)
  show "sum_list (cache_seg_lengths c) = cache_shape c ! SEG_DIM"
    by (simp add: cache_seg_lengths_def Let_def)
next
  assume "SEG_DIM < length shp \<and> sum_list seg_lengths \<noteq> shp ! SEG_DIM"
  then show "TorchMixedDevice_allocate w devices shp seg_lengths pin nm = Inl (AssertionError [])"
    by (simp add: TorchMixedDevice_allocate_def)
next
  assume a: "TorchMixedDevice_allocate w devices shp seg_lengths pin nm = Inr (r, w')"
  let ?sp = "seg_points_from 0 seg_lengths"
  from a have dim: "SEG_DIM < length shp" and sum: "sum_list seg_lengths = shp ! SEG_DIM"
    and len: "length seg_lengths = length devices"
    by (auto simp: TorchMixedDevice_allocate_def split: if_splits)
  from a dim sum len obtain ts w1 nm' w2 where
    segs: "allocate_segments w devices ?sp shp pin 0 = Inr (ts, w1)" and
    nn: "name_or_next nm w1 = (nm', w2)" and
    fin: "new_tensor w2 \<lparr>shape = shp, data = Some (Segments ts ?sp),
            device = Some (TorchMixedDevice devices), delete_file = True, name = nm'\<rparr> = (r, w')"
    by (auto simp: TorchMixedDevice_allocate_def Let_def split: sum.splits prod.splits)
  note S = allocate_segments_result [OF segs]
  from name_or_next_frame [OF nn] have w2: "objects w2 = objects w1" "next_ref w2 = next_ref w1"
    by simp_all
  from fin w2 have r: "r = next_ref w1" and
    o': "objects w' = (objects w1)(r \<mapsto> \<lparr>shape = shp, data = Some (Segments ts ?sp),
            device = Some (TorchMixedDevice devices), delete_file = True, name = nm'\<rparr>)"
    by (auto simp: new_tensor_def)
  show "sum_list seg_lengths = shp ! SEG_DIM" by (rule sum)
  show "length ?sp = length seg_lengths + 1" by (simp add: length_seg_points_from)
  show "\<forall>i\<le>length seg_lengths. ?sp ! i = sum_list (take i seg_lengths)"
    by (simp add: seg_points_from_nth)
  have segs_ok: "\<forall>i<length seg_lengths.
                (seg_lengths ! i = 0 \<longrightarrow> ts ! i = None)
              \<and> (seg_lengths ! i \<noteq> 0 \<longrightarrow>
                   (\<exists>sub st. ts ! i = Some sub \<and> objects w' sub = Some st
                      \<and> shape st = shp[SEG_DIM := seg_lengths ! i]))"
  proof (intro allI impI)
    fix i assume i: "i < length seg_lengths"
    have d: "?sp ! (0 + i + 1) - ?sp ! (0 + i) = seg_lengths ! i"
      using seg_points_from_diff [OF i, of 0] by simp
    from S i len have
      z: "?sp ! (0 + i + 1) - ?sp ! (0 + i) = 0 \<longrightarrow> ts ! i = None" and
      nz: "?sp ! (0 + i + 1) - ?sp ! (0 + i) \<noteq> 0 \<longrightarrow>
             (\<exists>sub st. ts ! i = Some sub \<and> sub < next_ref w1 \<and> objects w1 sub = Some st
                \<and> shape st = seg_shape shp (?sp ! (0 + i + 1) - ?sp ! (0 + i)))"
      by auto
    show "(seg_lengths ! i = 0 \<longrightarrow> ts ! i = None)
              \<and> (seg_lengths ! i \<noteq> 0 \<longrightarrow>
                   (\<exists>sub st. ts ! i = Some sub \<and> objects w' sub = Some st
                      \<and> shape st = shp[SEG_DIM := seg_lengths ! i]))"
    proof (cases "seg_lengths ! i = 0")
      case True
      with z d show ?thesis by simp
    next
      case False
      with nz d obtain sub st where
        sub: "ts ! i = Some sub" "sub < next_ref w1" "objects w1 sub = Some st"
          "shape st = seg_shape shp (seg_lengths ! i)"
        by auto
      have "objects w' sub = Some st"
        using sub o' r by simp
      with sub dim False show ?thesis
        by (simp add: seg_shape_update)
    qed
  qed
  show "\<exists>tensors t.
            objects w' r = Some t \<and> shape t = shp
          \<and> data t = Some (Segments tensors ?sp)
          \<and> length tensors = length seg_lengths
          \<and> (\<forall>i<length seg_lengths.
                (seg_lengths ! i = 0 \<longrightarrow> tensors ! i = None)
              \<and> (seg_lengths ! i \<noteq> 0 \<longrightarrow>
                   (\<exists>sub st. tensors ! i = Some sub \<and> objects w' sub = Some st
                      \<and> shape st = shp[SEG_DIM := seg_lengths ! i])))"
    using o' S len segs_ok by (intro exI [of _ ts]) simp
qed


theorem mixed_allocate_segments_witness:
  "cache_shape example_config = [4, 100, 8]
   \<and> cache_seg_lengths example_config = [50, 30, 20]
   \<and> seg_points_from 0 [50, 30, 20] = [0, 50, 80, 100]
   \<and> (\<exists>w'. TorchMixedDevice_allocate empty_world example_devices [4, 100, 8] [50, 30, 20]
              (Some False) None = Inr (3, w')
          \<and> objects w' 3 = Some example_mixed
          \<and> objects w' 0 = Some example_gpu_seg
          \<and> objects w' 1 = Some example_cpu_seg
          \<and> objects w' 2 = Some example_disk_seg)
   \<and> map shape [example_gpu_seg, example_cpu_seg, example_disk_seg] =
       [[4, 50, 8], [4, 30, 8], [4, 20, 8]]
   \<and> TorchMixedDevice_allocate empty_world example_devices [4, 100, 8] [50, 30, 21]
        (Some False) None = Inl (AssertionError [])"
proof -
  let ?al = "TorchMixedDevice_allocate empty_world example_devices [4, 100, 8] [50, 30, 20]
               (Some False) None"
  have "case ?al of
          Inl e \<Rightarrow> False
        | Inr (r, w') \<Rightarrow>
            r = 3 \<and> objects w' 3 = Some example_mixed \<and> objects w' 0 = Some example_gpu_seg
            \<and> objects w' 1 = Some example_cpu_seg \<and> objects w' 2 = Some example_disk_seg"
    by code_simp
  then obtain w' where al: "?al = Inr (3, w')"
    and objs: "objects w' 3 = Some example_mixed" "objects w' 0 = Some example_gpu_seg"
      "objects w' 1 = Some example_cpu_seg" "objects w' 2 = Some example_disk_seg"
    by (auto split: sum.splits)
  have bad: "SEG_DIM < length [4, 100, 8 :: int] \<and> sum_list [50, 30, 21] \<noteq> [4, 100, 8 :: int] ! SEG_DIM"
    by (simp add: SEG_DIM_def)
  note good = mixed_allocate_segments
    [where w = empty_world and devices = example_devices and shp = "[4, 100, 8]"
       and seg_lengths = "[50, 30, 20]" and pin = "Some False" and nm = None
       and r = 3 and w' = w' and c = example_config]
  note refused = mixed_allocate_segments
    [where w = empty_world and devices = example_devices and shp = "[4, 100, 8]"
       and seg_lengths = "[50, 30, 21]" and pin = "Some False" and nm = None]
  have pts: "\<forall>i\<le>length [50, 30, 20 :: int].
               seg_points_from 0 [50, 30, 20] ! i = sum_list (take i [50, 30, 20])"
    using good al by blast
  have sums: "sum_list (cache_seg_lengths example_config) = cache_shape example_config ! SEG_DIM"
    using good by blast
  have no: "TorchMixedDevice_allocate empty_world example_devices [4, 100, 8] [50, 30, 21]
              (Some False) None = Inl (AssertionError [])"
    using refused bad by blast
  have ev: "cache_shape example_config = [4, 100, 8]"
    "cache_seg_lengths example_config = [50, 30, 20]"
    "seg_points_from 0 [50, 30, 20] = [0, 50, 80, 100]"
    "map shape [example_gpu_seg, example_cpu_seg, example_disk_seg] =
       [[4, 50, 8], [4, 30, 8], [4, 20, 8]]"
    by code_simp+
  show ?thesis
    using al objs no ev by blast
qed

subsection \<open>Sparse decode attention: how many positions are selected\<close>






subsection \<open>Position indices of the input embedding\<close>

lemma F_embedding_rows:
  assumes "\<forall>i\<in>set ids. 0 \<le> i \<and> i < int (length weight)"
  shows "F_embedding ids weight p = Inr (map (\<lambda>i. weight ! nat i) ids)"
  using assms by (induction ids) auto

lemma length_cumsum_from: "length (cumsum_from a xs) = length xs"
  by (induction xs arbitrary: a) auto

lemma cumsum_from_nth:
  "j < length xs \<Longrightarrow> cumsum_from a xs ! j = a + sum_list (take (Suc j) xs)"
proof (induction xs arbitrary: a j)
  case Nil
  then show ?case by simp
next
  case (Cons x xs)
  then show ?case by (cases j) (auto simp: add.assoc)
qed

lemma sum_list_count:
  assumes "\<forall>x\<in>set xs. x = 0 \<or> x = (1 :: int)"
  shows "sum_list xs = int (length (filter (\<lambda>x. x \<noteq> 0) xs))"
  using assms by (induction xs) auto

lemma length_positions_of: "length (positions_of m) = length m"
  by (simp add: positions_of_def cumsum_def length_cumsum_from)

lemma positions_of_nth:
  assumes "p < length m"
  shows "positions_of m ! p = sum_list (take (Suc p) m) * m ! p + 1"
  using assms
  by (simp add: positions_of_def cumsum_def length_cumsum_from cumsum_from_nth)

lemma add_rows_same_shape:
  assumes "list_all2 (\<lambda>a b. length a = length b) xs ys"
  shows "add_rows xs ys = Inr (map2 (\<lambda>a b. map2 (+) a b) xs ys)"
  using assms by (induction rule: list_all2_induct) (auto simp: add_vec_def)

text \<open>
  Claim C8, as amended. For a 0/1 mask at least as long as the new tokens, token ids
  inside the token table, a position table with more than \<open>len(mask) + 1\<close> rows and
  both tables of one width, \<open>opt_input_embed\<close> returns one vector per new token: the
  token table's row of its id plus the position table's row of its position index. The
  new tokens are the last positions of the mask (the cached positions before them are cut
  off); the position index of a non-pad position is one more than the number of
  non-pad positions of the whole mask up to and including it, and that of a pad position
  is 1. Nothing is set to zero: the output at a pad position is the sum of those two
  rows.
\<close>

theorem input_embed_positions:
  assumes mask01: "\<forall>x\<in>set attention_mask. x = 0 \<or> x = 1"
    and len: "length token_ids \<le> length attention_mask"
    and ids: "\<forall>i\<in>set token_ids. 0 \<le> i \<and> i < int (length w_token)"
    and tab: "length attention_mask + 1 < length w_pos"
    and dim: "\<forall>v\<in>set w_token. length v = h" "\<forall>v\<in>set w_pos. length v = h"
  shows "\<exists>out. opt_input_embed token_ids attention_mask w_token w_pos pad_token_id = Inr out
           \<and> length out = length token_ids
           \<and> (\<forall>j<length token_ids.
                out ! j =
                  map2 (+) (w_token ! nat (token_ids ! j))
                    (w_pos ! nat (positions_of attention_mask
                                    ! (length attention_mask - length token_ids + j)))
              \<and> positions_of attention_mask ! (length attention_mask - length token_ids + j) =
                  (if attention_mask ! (length attention_mask - length token_ids + j) = 1
                   then 1 + int (length (filter (\<lambda>x. x \<noteq> 0)
                          (take (Suc (length attention_mask - length token_ids + j))
                             attention_mask)))
                   else 1))"
proof -
  let ?m = attention_mask
  let ?past = "length ?m - length token_ids"
  let ?pos = "drop ?past (positions_of ?m)"
  let ?te = "map (\<lambda>i. w_token ! nat i) token_ids"
  let ?pe = "map (\<lambda>i. w_pos ! nat i) ?pos"
  have past: "py_from (int (length ?m) - int (length token_ids)) (positions_of ?m) = ?pos"
    using len by (simp add: py_from_def nat_diff_distrib')
  have pos_val: "positions_of ?m ! p =
                   (if ?m ! p = 1
                    then 1 + int (length (filter (\<lambda>x. x \<noteq> 0) (take (Suc p) ?m))) else 1)"
    if "p < length ?m" for p
  proof -
    have "\<forall>x\<in>set (take (Suc p) ?m). x = 0 \<or> x = 1"
      using mask01 by (auto dest: in_set_takeD)
    then have "sum_list (take (Suc p) ?m) = int (length (filter (\<lambda>x. x \<noteq> 0) (take (Suc p) ?m)))"
      by (rule sum_list_count)
    moreover have "?m ! p = 0 \<or> ?m ! p = 1"
      using mask01 that by simp
    ultimately show ?thesis
      using positions_of_nth [OF that] by auto
  qed
  have pos_rng: "\<forall>i\<in>set ?pos. 0 \<le> i \<and> i < int (length w_pos)"
  proof
    fix i assume "i \<in> set ?pos"
    then have "i \<in> set (positions_of ?m)" by (rule in_set_dropD)
    then obtain p where p: "p < length ?m" "i = positions_of ?m ! p"
      by (auto simp: in_set_conv_nth length_positions_of)
    have "length (filter (\<lambda>x. x \<noteq> 0) (take (Suc p) ?m)) \<le> length ?m"
      by (rule order.trans [OF length_filter_le]) simp
    then show "0 \<le> i \<and> i < int (length w_pos)"
      using p pos_val [OF p(1)] tab by (auto split: if_splits)
  qed
  have te: "F_embedding token_ids w_token (Some pad_token_id) = Inr ?te"
    by (rule F_embedding_rows [OF ids])
  have pe: "F_embedding ?pos w_pos None = Inr ?pe"
    by (rule F_embedding_rows [OF pos_rng])
  have lens: "length ?te = length ?pe"
    using len by (simp add: length_positions_of)
  have rows: "list_all2 (\<lambda>a b. length a = length b) ?te ?pe"
  proof (rule list_all2_all_nthI [OF lens])
    fix n assume n: "n < length ?te"
    then have "w_token ! nat (token_ids ! n) \<in> set w_token"
      using ids by (auto simp: nat_less_iff)
    moreover have "n < length ?pos"
      using n lens by simp
    then have "?pos ! n \<in> set ?pos"
      by (rule nth_mem)
    then have "w_pos ! nat (?pos ! n) \<in> set w_pos"
      using pos_rng by (auto simp: nat_less_iff)
    ultimately show "length (?te ! n) = length (?pe ! n)"
      using dim n lens by simp
  qed
  have out: "opt_input_embed token_ids ?m w_token w_pos pad_token_id =
               Inr (map2 (\<lambda>a b. map2 (+) a b) ?te ?pe)"
    using te pe past add_rows_same_shape [OF rows]
    by (simp add: opt_input_embed_def Let_def)
  have nth: "map2 (\<lambda>a b. map2 (+) a b) ?te ?pe ! j =
               map2 (+) (w_token ! nat (token_ids ! j)) (w_pos ! nat (positions_of ?m ! (?past + j)))"
    if "j < length token_ids" for j
    using that lens len by (simp add: length_positions_of)
  have idx: "?past + j < length ?m" if "j < length token_ids" for j
    using that len by simp
  show ?thesis
    using out lens nth pos_val [OF idx]
    by (intro exI [of _ "map2 (\<lambda>a b. map2 (+) a b) ?te ?pe"]) simp
qed


theorem input_embed_positions_witness:
  "opt_input_embed [5, 6, 1] [1, 1, 0] example_w_token example_w_pos 1 =
     Inr [[250], [360], [100]]
   \<and> positions_of [1, 1, 0] = [2, 3, 1]
   \<and> opt_input_embed [5] [0, 1, 1, 1] example_w_token example_w_pos 1 = Inr [[450]]
   \<and> positions_of [0, 1, 1, 1] ! 3 = 4"
proof -
  have m1: "\<forall>x\<in>set [1, 1, 0 :: int]. x = 0 \<or> x = 1"
    and m2: "\<forall>x\<in>set [0, 1, 1, 1 :: int]. x = 0 \<or> x = 1"
    and l1: "length [5, 6, 1 :: int] \<le> length [1, 1, 0 :: int]"
    and l2: "length [5 :: int] \<le> length [0, 1, 1, 1 :: int]"
    and i1: "\<forall>i\<in>set [5, 6, 1 :: int]. 0 \<le> i \<and> i < int (length example_w_token)"
    and i2: "\<forall>i\<in>set [5 :: int]. 0 \<le> i \<and> i < int (length example_w_token)"
    and t1: "length [1, 1, 0 :: int] + 1 < length example_w_pos"
    and t2: "length [0, 1, 1, 1 :: int] + 1 < length example_w_pos"
    and d: "\<forall>v\<in>set example_w_token. length v = 1" "\<forall>v\<in>set example_w_pos. length v = 1"
    by (simp_all add: example_w_token_def example_w_pos_def)
  from input_embed_positions [OF m1 l1 i1 t1 d, of 1]
  obtain out1 where o1: "opt_input_embed [5, 6, 1] [1, 1, 0] example_w_token example_w_pos 1 = Inr out1"
    and "length out1 = length [5, 6, 1 :: int]"
    by blast
  from input_embed_positions [OF m2 l2 i2 t2 d, of 1]
  obtain out2 where o2: "opt_input_embed [5] [0, 1, 1, 1] example_w_token example_w_pos 1 = Inr out2"
    and "length out2 = length [5 :: int]"
    by blast
  have ev: "opt_input_embed [5, 6, 1] [1, 1, 0] example_w_token example_w_pos 1 =
              Inr [[250], [360], [100]]"
    "positions_of [1, 1, 0] = [2, 3, 1]"
    "opt_input_embed [5] [0, 1, 1, 1] example_w_token example_w_pos 1 = Inr [[450]]"
    "positions_of [0, 1, 1, 1] ! 3 = 4"
    by code_simp+
  show ?thesis using ev o1 o2 by simp
qed

text \<open>
  The claim as written makes the position index the running count itself and the output
  at a pad position the zero vector. For the tokens \<open>5, 6, pad\<close> the first token's
  index is 2 with one non-pad token so far, and the output at the pad position is the
  position table's row 1, although the token table's pad row is zero.
\<close>

theorem pad_position_not_zero_and_positions_shifted:
  "positions_of [1, 1, 0] = [2, 3, 1]
   \<and> int (length (filter (\<lambda>x. x \<noteq> 0) (take (Suc 0) [1, 1, 0 :: int]))) = 1
   \<and> example_w_token ! 1 = [0]
   \<and> opt_input_embed [5, 6, 1] [1, 1, 0] example_w_token example_w_pos 1 =
       Inr [[250], [360], [100]]"
  by code_simp

subsection \<open>The worker loop and \<open>synchronize\<close>\<close>

lemma queue_progress_refl: "length q \<le> u \<Longrightarrow> queue_progress c w q u lg q u lg"
  by (simp add: queue_progress_def)

lemma queue_progress_trans:
  assumes "queue_progress c w q u lg q1 u1 lg1" and "queue_progress c w q1 u1 lg1 q2 u2 lg2"
  shows "queue_progress c w q u lg q2 u2 lg2"
  unfolding queue_progress_def
proof (intro conjI allI impI)
  note a = assms(1) [unfolded queue_progress_def] and b = assms(2) [unfolded queue_progress_def]
  show "length q2 \<le> u2" using b by simp
  show slack: "u - length q \<le> u2 - length q2" using a b by linarith
  show "set lg \<subseteq> set lg2" using a b by blast
  have keep: "length q2 < u2" if "length q1 < u1"
    using that a b by linarith
  show "Some t \<in> set q2 \<or> t \<in> fst ` set lg2 \<or> length q2 < u2" if "Some t \<in> set q" for t
  proof -
    from a that consider "Some t \<in> set q1" | "t \<in> fst ` set lg1" | "length q1 < u1"
      by blast
    then show ?thesis
    proof cases
      case 1 with b show ?thesis by blast
    next
      case 2 with b show ?thesis by blast
    next
      case 3 with keep show ?thesis by blast
    qed
  qed
  show "Some t \<in> set q2 \<or> length q2 < u2"
    if "Some t \<in> set q \<and> run_copy_task c w t = Inl e" for t e
  proof -
    from a that consider "Some t \<in> set q1" | "length q1 < u1"
      by blast
    then show ?thesis
    proof cases
      case 1 with b that show ?thesis by blast
    next
      case 2 with keep show ?thesis by blast
    qed
  qed
qed

lemma copy_worker_func_progress:
  assumes "length q \<le> u" and "copy_worker_func c w q u lg = (th, q', u', lg')"
  shows "queue_progress c w q u lg q' u' lg'"
  using assms
proof (induction c w q u lg rule: copy_worker_func.induct)
  case (1 c w u lg)
  then show ?case by (simp add: queue_progress_def)
next
  case (2 c w q u lg)
  then show ?case by (auto simp: queue_progress_def task_done_def split: if_splits)
next
  case (3 c w task q u lg)
  show ?case
  proof (cases "run_copy_task c w task")
    case (Inl e)
    with 3 show ?thesis by (auto simp: queue_progress_def)
  next
    case (Inr relay)
    from "3.prems" have u: "task_done u = Inr (u - 1)" and le: "length q \<le> u - 1"
      by (simp_all add: task_done_def)
    from "3.prems" Inr u have
      rec: "copy_worker_func c w q (u - 1) (lg @ [(task, relay)]) = (th, q', u', lg')"
      by simp
    from "3.IH" [OF Inr u le rec]
    have P: "queue_progress c w q (u - 1) (lg @ [(task, relay)]) q' u' lg'" .
    note p = P [unfolded queue_progress_def]
    have "(task, relay) \<in> set lg'"
      using p by auto
    then have logged: "task \<in> fst ` set lg'"
      by (rule image_eqI [rotated]) simp
    show ?thesis
      unfolding queue_progress_def
    proof (intro conjI allI impI)
      show "length q' \<le> u'" using p by simp
      show "u - length (Some task # q) \<le> u' - length q'"
        using p "3.prems"(1) by simp
      show "set lg \<subseteq> set lg'" using p by auto
      show "Some t \<in> set q' \<or> t \<in> fst ` set lg' \<or> length q' < u'"
        if "Some t \<in> set (Some task # q)" for t
      proof (cases "t = task")
        case True
        with logged show ?thesis by simp
      next
        case False
        with that have "Some t \<in> set q" by simp
        with p show ?thesis by blast
      qed
      show "Some t \<in> set q' \<or> length q' < u'"
        if "Some t \<in> set (Some task # q) \<and> run_copy_task c w t = Inl e" for t e
      proof -
        from that Inr have "t \<noteq> task" by auto
        with that have "Some t \<in> set q \<and> run_copy_task c w t = Inl e" by simp
        with p show ?thesis by blast
      qed
    qed
  qed
qed

lemma run_threads_progress:
  assumes "length q \<le> u" and "run_threads c w ths q u lg = (ths', q', u', lg')"
  shows "queue_progress c w q u lg q' u' lg'"
  using assms
proof (induction ths arbitrary: q u lg ths' q' u' lg')
  case Nil
  then show ?case by (simp add: queue_progress_refl)
next
  case (Cons th ths)
  show ?case
  proof (cases "th = Running")
    case True
    obtain th1 q1 u1 lg1 where w1: "copy_worker_func c w q u lg = (th1, q1, u1, lg1)"
      by (cases "copy_worker_func c w q u lg") blast
    obtain ths2 where r: "run_threads c w ths q1 u1 lg1 = (ths2, q', u', lg')"
      using Cons.prems(2) True w1 by (auto split: prod.splits)
    have P1: "queue_progress c w q u lg q1 u1 lg1"
      by (rule copy_worker_func_progress [OF Cons.prems(1) w1])
    then have "length q1 \<le> u1" by (simp add: queue_progress_def)
    from Cons.IH [OF this r] P1 show ?thesis
      by (rule queue_progress_trans [rotated])
  next
    case False
    then obtain ths2 where "run_threads c w ths q u lg = (ths2, q', u', lg')"
      using Cons.prems(2) by (cases th) (auto split: prod.splits)
    from Cons.IH [OF Cons.prems(1) this] show ?thesis .
  qed
qed

lemma run_workers_progress:
  assumes "length (copy_queue st) \<le> unfinished_tasks st"
  shows "queue_progress c w (copy_queue st) (unfinished_tasks st) (completed st)
           (copy_queue (run_workers c w st)) (unfinished_tasks (run_workers c w st))
           (completed (run_workers c w st))
         \<and> cuda_pending (run_workers c w st) = cuda_pending st"
proof -
  obtain ths q u lg where
    r: "run_threads c w (copy_threads st) (copy_queue st) (unfinished_tasks st) (completed st)
          = (ths, q, u, lg)"
    by (cases "run_threads c w (copy_threads st) (copy_queue st) (unfinished_tasks st)
                 (completed st)") blast
  from run_threads_progress [OF assms r] r show ?thesis
    by (simp add: run_workers_def)
qed

lemma worker_returns_on_sentinel_only:
  "fst (copy_worker_func c w q u lg) = Returned \<Longrightarrow> None \<in> set q"
  by (induction c w q u lg rule: copy_worker_func.induct)
     (auto simp: task_done_def split: sum.splits if_splits)

text \<open>
  Claim C1, as amended. A worker that pops a task whose copy succeeds marks it done
  (the count of unfinished tasks goes down by one) and goes on with the rest of the
  queue. A worker that pops the sentinel \<open>None\<close> marks it done and returns, and a
  worker returns only after popping a sentinel. A task whose copy raises ends the
  worker with that exception: the task is not marked done and nothing else of the state
  changes, so no error is recorded; and \<open>synchronize\<close> on a queue that holds such a
  task does not raise and does not return, because the count never reaches zero.
\<close>

theorem worker_marks_done_only_on_success:
  "(run_copy_task c w task = Inr relay \<and> 0 < u \<longrightarrow>
      copy_worker_func c w (Some task # q) u lg =
        copy_worker_func c w q (u - 1) (lg @ [(task, relay)]))
   \<and> (0 < u \<longrightarrow> copy_worker_func c w (None # q) u lg = (Returned, q, u - 1, lg))
   \<and> (fst (copy_worker_func c w q u lg) = Returned \<longrightarrow> None \<in> set q)
   \<and> (run_copy_task c w task = Inl e \<longrightarrow>
        copy_worker_func c w (Some task # q) u lg = (Died e, q, u, lg))
   \<and> (length (copy_queue st) \<le> unfinished_tasks st \<and> Some task \<in> set (copy_queue st)
        \<and> run_copy_task c w task = Inl e \<longrightarrow>
        TorchDisk_synchronize c w st = None)"
proof (intro conjI impI)
  assume a: "length (copy_queue st) \<le> unfinished_tasks st \<and> Some task \<in> set (copy_queue st)
               \<and> run_copy_task c w task = Inl e"
  let ?st' = "run_workers c w st"
  from a run_workers_progress [of st c w]
  have P: "queue_progress c w (copy_queue st) (unfinished_tasks st) (completed st)
             (copy_queue ?st') (unfinished_tasks ?st') (completed ?st')"
    by simp
  then have le: "length (copy_queue ?st') \<le> unfinished_tasks ?st'"
    and "Some task \<in> set (copy_queue ?st') \<or> length (copy_queue ?st') < unfinished_tasks ?st'"
    using a unfolding queue_progress_def by blast+
  then have "0 < unfinished_tasks ?st'"
    by (cases "copy_queue ?st'") auto
  then show "TorchDisk_synchronize c w st = None"
    by (simp add: TorchDisk_synchronize_def Let_def)
qed (auto simp: task_done_def dest: worker_returns_on_sentinel_only)

theorem worker_marks_done_only_on_success_witness:
  "copy_worker_func (\<lambda>t. None) example_world
       [Some example_task_from_disk, Some example_task_to_disk] 2 [] =
     copy_worker_func (\<lambda>t. None) example_world
       [Some example_task_to_disk] 1 [(example_task_from_disk, False)]
   \<and> copy_worker_func (\<lambda>t. None) example_world [None, Some example_task_to_disk] 2 [] =
       (Returned, [Some example_task_to_disk], 1, [])
   \<and> copy_worker_func (\<lambda>t. None) example_deleted_world
        [Some example_task_from_disk, Some example_task_to_host] 2 [] =
       (Died AttributeError, [Some example_task_to_host], 2, [])
   \<and> TorchDisk_synchronize (\<lambda>t. None) example_deleted_world example_stalled_state = None"
proof -
  have ok: "run_copy_task (\<lambda>t. None) example_world example_task_from_disk = Inr False \<and> 0 < (2 :: nat)"
    and pos: "0 < (2 :: nat)"
    and bad: "run_copy_task (\<lambda>t. None) example_deleted_world example_task_from_disk
                = Inl AttributeError"
    and inv: "length (copy_queue example_stalled_state) \<le> unfinished_tasks example_stalled_state"
    and queued: "Some example_task_from_disk \<in> set (copy_queue example_stalled_state)"
    by code_simp+
  note good = worker_marks_done_only_on_success
    [where c = "\<lambda>t. None" and w = example_world and task = example_task_from_disk
       and relay = False and u = 2 and q = "[Some example_task_to_disk]" and lg = "[]"]
  note failing = worker_marks_done_only_on_success
    [where c = "\<lambda>t. None" and w = example_deleted_world and task = example_task_from_disk
       and e = AttributeError and u = 2 and q = "[Some example_task_to_host]" and lg = "[]"
       and st = example_stalled_state]
  have a: "copy_worker_func (\<lambda>t. None) example_world
             (Some example_task_from_disk # [Some example_task_to_disk]) 2 [] =
           copy_worker_func (\<lambda>t. None) example_world
             [Some example_task_to_disk] (2 - 1) ([] @ [(example_task_from_disk, False)])"
    using good ok by blast
  have b: "copy_worker_func (\<lambda>t. None) example_world (None # [Some example_task_to_disk]) 2 [] =
             (Returned, [Some example_task_to_disk], 2 - 1, [])"
    using good pos by blast
  have c: "copy_worker_func (\<lambda>t. None) example_deleted_world
             (Some example_task_from_disk # [Some example_task_to_host]) 2 [] =
             (Died AttributeError, [Some example_task_to_host], 2, [])"
    using failing bad by blast
  have d: "TorchDisk_synchronize (\<lambda>t. None) example_deleted_world example_stalled_state = None"
    using failing inv queued bad by blast
  show ?thesis using a b c d by simp
qed

text \<open>
  The claim as written has the worker survive a failure, count the task as done and
  keep the error for \<open>synchronize\<close>. After \<open>delete\<close> of the disk segment (what
  \<open>move\<close> does right after starting the copy) the task that reads from it raises
  \<open>AttributeError\<close>: the first of the four threads is dead, the other task is done by
  the next thread, the count stays at one, and \<open>synchronize\<close> never returns.
\<close>

theorem failed_task_kills_worker_and_stalls_queue:
  "TorchTensor_delete example_world 2 = Inr example_deleted_world
   \<and> run_copy_task (\<lambda>t. None) example_deleted_world example_task_from_disk = Inl AttributeError
   \<and> run_workers (\<lambda>t. None) example_deleted_world example_stalled_state =
       \<lparr>copy_queue = [], unfinished_tasks = 1,
        copy_threads = [Died AttributeError, Running, Running, Running],
        completed = [(example_task_to_host, True)], cuda_pending = []\<rparr>
   \<and> TorchDisk_synchronize (\<lambda>t. None) example_deleted_world example_stalled_state = None"
proof -
  have "TorchTensor_delete example_world 2 = Inr example_deleted_world"
    by (simp add: TorchTensor_delete_def TorchDisk_delete_def example_deleted_world_def
          example_world_def example_disk_seg_def)
  moreover have
    "run_copy_task (\<lambda>t. None) example_deleted_world example_task_from_disk = Inl AttributeError"
    "run_workers (\<lambda>t. None) example_deleted_world example_stalled_state =
       \<lparr>copy_queue = [], unfinished_tasks = 1,
        copy_threads = [Died AttributeError, Running, Running, Running],
        completed = [(example_task_to_host, True)], cuda_pending = []\<rparr>"
    "TorchDisk_synchronize (\<lambda>t. None) example_deleted_world example_stalled_state = None"
    by code_simp+
  ultimately show ?thesis by simp
qed

text \<open>
  Claim C2, as amended. When \<open>TorchDisk.synchronize\<close> returns on a queue whose count
  covers its items, the count of unfinished tasks is zero, the queue is empty and every
  task that was on it has been carried out. It waits for nothing else: the non-blocking
  device copies that \<open>general_copy\<close> started directly are as pending as before. The
  device-level barrier is \<open>TorchDevice.synchronize\<close>, a call of its own, which in
  turn leaves the queue alone.
\<close>

theorem disk_synchronize_waits_for_queue_only:
  assumes "TorchDisk_synchronize c w st = Some st'"
    and "length (copy_queue st) \<le> unfinished_tasks st"
  shows "unfinished_tasks st' = 0 \<and> copy_queue st' = []
         \<and> (\<forall>t. Some t \<in> set (copy_queue st) \<longrightarrow> t \<in> fst ` set (completed st'))
         \<and> set (completed st) \<subseteq> set (completed st')
         \<and> cuda_pending st' = cuda_pending st
         \<and> cuda_pending (TorchDevice_synchronize st') = []
         \<and> copy_queue (TorchDevice_synchronize st) = copy_queue st
         \<and> unfinished_tasks (TorchDevice_synchronize st) = unfinished_tasks st"
proof -
  from assms(1) have st': "st' = run_workers c w st" and z: "unfinished_tasks st' = 0"
    by (auto simp: TorchDisk_synchronize_def Let_def split: if_splits)
  from run_workers_progress [OF assms(2), of c w] st'
  have P: "queue_progress c w (copy_queue st) (unfinished_tasks st) (completed st)
             (copy_queue st') (unfinished_tasks st') (completed st')"
    and pend: "cuda_pending st' = cuda_pending st"
    by simp_all
  note p = P [unfolded queue_progress_def]
  have empty: "copy_queue st' = []" using p z by simp
  have "t \<in> fst ` set (completed st')" if "Some t \<in> set (copy_queue st)" for t
    using p that z empty by auto
  then show ?thesis
    using z empty p pend by (simp add: TorchDevice_synchronize_def)
qed

theorem disk_synchronize_waits_for_queue_only_witness:
  "TorchDisk_synchronize (\<lambda>t. None) example_world example_disk_state =
     Some \<lparr>copy_queue = [], unfinished_tasks = 0,
           copy_threads = [Running, Running, Running, Running],
           completed = [(example_task_from_disk, False), (example_task_to_disk, True)],
           cuda_pending = [example_task_on_device]\<rparr>
   \<and> copy_queue example_disk_state = [Some example_task_from_disk, Some example_task_to_disk]
   \<and> unfinished_tasks example_disk_state = 2
   \<and> cuda_pending (TorchDevice_synchronize example_disk_state) = []"
proof -
  let ?st' = "\<lparr>copy_queue = [], unfinished_tasks = 0,
           copy_threads = [Running, Running, Running, Running],
           completed = [(example_task_from_disk, False), (example_task_to_disk, True)],
           cuda_pending = [example_task_on_device]\<rparr>"
  have ev: "TorchDisk_synchronize (\<lambda>t. None) example_world example_disk_state = Some ?st'"
    and inv: "length (copy_queue example_disk_state) \<le> unfinished_tasks example_disk_state"
    and q: "copy_queue example_disk_state = [Some example_task_from_disk, Some example_task_to_disk]"
      "unfinished_tasks example_disk_state = 2"
      "cuda_pending (TorchDevice_synchronize example_disk_state) = []"
    by code_simp+
  from disk_synchronize_waits_for_queue_only [OF ev inv]
  have "unfinished_tasks ?st' = 0" "cuda_pending ?st' = cuda_pending example_disk_state"
    by simp_all
  with ev q show ?thesis by simp
qed

text \<open>
  The claim as written has the disk backend's \<open>synchronize\<close> issue the device barrier
  too. A copy between two accelerator tensors takes the direct branch; after the disk
  backend's \<open>synchronize\<close> has returned it is still pending.
\<close>

theorem disk_synchronize_leaves_device_copy_pending:
  "general_copy (Suc 0) (objects example_world) (Some (TorchDisk ''/d''))
       0 None 4 (Some [Slice 0 4 None, Slice 0 50 None]) =
     Inr [DirectCopy example_task_on_device]
   \<and> cuda_pending example_disk_state = [example_task_on_device]
   \<and> TorchDisk_synchronize (\<lambda>t. None) example_world example_disk_state =
       Some \<lparr>copy_queue = [], unfinished_tasks = 0,
             copy_threads = [Running, Running, Running, Running],
             completed = [(example_task_from_disk, False), (example_task_to_disk, True)],
             cuda_pending = [example_task_on_device]\<rparr>"
  by code_simp

end
